theory Spec2Isabelle
  imports Complex_Main "HOL-Library.AList"
begin

section \<open>Data model\<close>

text \<open>
  The repository holds one React application in several generations: \<^verbatim>\<open>src/index.tsx\<close>
  (remote database, three lifecycle states, the timestamp is never null),
  \<^verbatim>\<open>src/unnamed/part_000\<close> (remote database, a fourth lifecycle state \<^verbatim>\<open>'Solicitada'\<close>, the
  timestamp may be null) and \<^verbatim>\<open>src/unnamed/part_002\<close> (browser storage, camel-case field
  names). The interface \<^verbatim>\<open>Surgery\<close> has the same shape in all three, so one record with
  type parameters stands for it: \<open>'d\<close> is the type of a doctor id, \<open>'h\<close> of a hospital or
  insurance id, \<open>'t\<close> of the timestamp field and \<open>'i\<close> of the surgery id.
  \<^verbatim>\<open>Omit<Surgery, 'id'>\<close>, the type of the form state, is the record without the id.

  A JavaScript \<^verbatim>\<open>number\<close> that holds an amount of money is a \<^typ>\<open>rat\<close>: every finite
  double is a rational number, and the model leaves out \<^verbatim>\<open>NaN\<close> and the infinities. Where the
  code adds amounts, the addition is a parameter of the model, of which nothing is
  assumed, so that what is proved holds for the rounding addition of doubles.

  A \<^verbatim>\<open>Record<string, number>\<close> is an association list in insertion order, the order in
  which JavaScript enumerates keys that are not array indices (the keys of the fee record
  are ids of doctors, UUIDs in \<^verbatim>\<open>src/index.tsx\<close>); \<^verbatim>\<open>null\<close> in place of an array or of a
  record reads as the empty one, as \<^verbatim>\<open>x || []\<close> and \<^verbatim>\<open>x || {}\<close> in the source do.
\<close>

datatype auth_status = Pendente | Liberado | Recusado

datatype surgery_status = Solicitada | Agendada | Realizada | Cancelada

record ('d, 'h, 't) formData =
  patient_name :: string
  main_surgeon_id :: 'd
  participating_ids :: "'d list"
  date_time :: 't
  hospital_id :: 'h
  insurance_id :: 'h
  auth_status :: auth_status
  surgery_status :: surgery_status
  fees :: "(string \<times> rat) list"
  material_cost :: rat
  notes_text :: string
  pre_op_xray_path :: "string option"
  post_op_xray_path :: "string option"

record ('d, 'h, 't, 'i) Surgery = "('d, 'h, 't) formData" +
  surgery_id :: 'i

section \<open>Event filter (CalendarView, \<^verbatim>\<open>filteredSurgeries\<close>)\<close>

text \<open>
  A filter value is the string \<^verbatim>\<open>'all'\<close> or a concrete value. \<^verbatim>\<open>String(s.hospital_id)\<close> is
  compared with the selected string; the decimal form of a number is injective, so the
  model compares the ids themselves.
\<close>

datatype 'a sel = All | Only 'a

record 'h advancedFilters =
  flt_auth_status :: "auth_status sel"
  flt_surgery_status :: "surgery_status sel"
  flt_hospital_id :: "'h sel"
  flt_insurance_id :: "'h sel"

text \<open>\<^verbatim>\<open>f !== 'all' && x !== f\<close>\<close>

fun selected_differs :: "'a sel \<Rightarrow> 'a \<Rightarrow> bool" where
  "selected_differs All x = False"
| "selected_differs (Only v) x = (x \<noteq> v)"

text \<open>
  \<^verbatim>\<open>doctorFilter !== 'all' && s.main_surgeon_id !== doctorFilter &&
  !(s.participating_ids || []).includes(String(doctorFilter))\<close>
\<close>

fun doctor_rejects :: "'d sel \<Rightarrow> ('d, 'h, 't, 'z) formData_scheme \<Rightarrow> bool" where
  "doctor_rejects All s = False"
| "doctor_rejects (Only d) s = (main_surgeon_id s \<noteq> d \<and> d \<notin> set (participating_ids s))"

text \<open>The callback of \<^verbatim>\<open>surgeries.filter\<close> in \<^verbatim>\<open>src/index.tsx\<close>, one early return per line.\<close>

definition keep_surgery ::
  "'d sel \<Rightarrow> 'h advancedFilters \<Rightarrow> ('d, 'h, 't, 'z) formData_scheme \<Rightarrow> bool" where
  "keep_surgery doctorFilter advanced s =
     (if doctor_rejects doctorFilter s then False
      else if selected_differs (flt_auth_status advanced) (auth_status s) then False
      else if selected_differs (flt_surgery_status advanced) (surgery_status s) then False
      else if selected_differs (flt_hospital_id advanced) (hospital_id s) then False
      else if selected_differs (flt_insurance_id advanced) (insurance_id s) then False
      else True)"

definition filteredSurgeries ::
  "('d, 'h, 't, 'z) formData_scheme list \<Rightarrow> 'd sel \<Rightarrow> 'h advancedFilters
     \<Rightarrow> ('d, 'h, 't, 'z) formData_scheme list" where
  "filteredSurgeries surgeries doctorFilter advanced =
     filter (keep_surgery doctorFilter advanced) surgeries"

text \<open>
  The same callback in \<^verbatim>\<open>src/unnamed/part_000\<close>: it starts with one more early return,
  \<^verbatim>\<open>if (!['Agendada', 'Realizada'].includes(s.surgery_status)) return false;\<close>
\<close>

definition keep_surgery_part000 ::
  "'d sel \<Rightarrow> 'h advancedFilters \<Rightarrow> ('d, 'h, 't, 'z) formData_scheme \<Rightarrow> bool" where
  "keep_surgery_part000 doctorFilter advanced s =
     (if surgery_status s \<notin> set [Agendada, Realizada] then False
      else if doctor_rejects doctorFilter s then False
      else if selected_differs (flt_auth_status advanced) (auth_status s) then False
      else if selected_differs (flt_surgery_status advanced) (surgery_status s) then False
      else if selected_differs (flt_hospital_id advanced) (hospital_id s) then False
      else if selected_differs (flt_insurance_id advanced) (insurance_id s) then False
      else True)"

definition filteredSurgeries_part000 ::
  "('d, 'h, 't, 'z) formData_scheme list \<Rightarrow> 'd sel \<Rightarrow> 'h advancedFilters
     \<Rightarrow> ('d, 'h, 't, 'z) formData_scheme list" where
  "filteredSurgeries_part000 surgeries doctorFilter advanced =
     filter (keep_surgery_part000 doctorFilter advanced) surgeries"

text \<open>
  The predicates in the words of the specification: a status predicate is equality with
  the selected value and \<^verbatim>\<open>'all'\<close> disables it; the doctor predicate holds when the selected
  id is the primary surgeon or one of the participants.
\<close>

fun status_predicate :: "'a sel \<Rightarrow> 'a \<Rightarrow> bool" where
  "status_predicate All x = True"
| "status_predicate (Only v) x = (x = v)"

fun doctor_predicate :: "'d sel \<Rightarrow> ('d, 'h, 't, 'z) formData_scheme \<Rightarrow> bool" where
  "doctor_predicate All s = True"
| "doctor_predicate (Only d) s = (d = main_surgeon_id s \<or> d \<in> set (participating_ids s))"

definition every_active_predicate ::
  "'d sel \<Rightarrow> 'h advancedFilters \<Rightarrow> ('d, 'h, 't, 'z) formData_scheme \<Rightarrow> bool" where
  "every_active_predicate doctorFilter advanced s =
     (doctor_predicate doctorFilter s
      \<and> status_predicate (flt_auth_status advanced) (auth_status s)
      \<and> status_predicate (flt_surgery_status advanced) (surgery_status s)
      \<and> status_predicate (flt_hospital_id advanced) (hospital_id s)
      \<and> status_predicate (flt_insurance_id advanced) (insurance_id s))"

definition no_filter :: "'h advancedFilters" where
  "no_filter = \<lparr>flt_auth_status = All, flt_surgery_status = All,
                flt_hospital_id = All, flt_insurance_id = All\<rparr>"

definition sample_surgery :: "surgery_status \<Rightarrow> (string, int, unit, int) Surgery" where
  "sample_surgery st =
     \<lparr>patient_name = ''Ana'', main_surgeon_id = ''d1'', participating_ids = [''d2''],
      date_time = (), hospital_id = 1, insurance_id = 2, auth_status = Pendente,
      surgery_status = st, fees = [(''d1'', 1000)], material_cost = 0, notes_text = [],
      pre_op_xray_path = None, post_op_xray_path = None, surgery_id = 7\<rparr>"

section \<open>Change feed (App, the \<^verbatim>\<open>postgres_changes\<close> callback)\<close>

text \<open>
  The payload of a change carries its kind with the new row (\<^verbatim>\<open>payload.new\<close>) or, for a
  deletion, the id of the old row (\<^verbatim>\<open>payload.old.id\<close>). Each of the three \<^verbatim>\<open>if\<close> statements of
  the callback passes one updater to \<^verbatim>\<open>setSurgeries\<close>; the function below is that updater
  applied to the current collection.
\<close>

datatype ('s, 'i) payload = INSERT 's | UPDATE 's | DELETE 'i

fun postgres_changes ::
  "(('d, 'h, 't, 'i) Surgery, 'i) payload \<Rightarrow> ('d, 'h, 't, 'i) Surgery list
     \<Rightarrow> ('d, 'h, 't, 'i) Surgery list" where
  "postgres_changes (INSERT new) current = current @ [new]"
| "postgres_changes (UPDATE new) current =
     map (\<lambda>s. if surgery_id s = surgery_id new then new else s) current"
| "postgres_changes (DELETE old_id) current =
     filter (\<lambda>s. surgery_id s \<noteq> old_id) current"

section \<open>Fee distribution of the surgery form (SurgeryModal)\<close>

text \<open>
  \<^verbatim>\<open>[...new Set(xs)]\<close>: a set keeps the first occurrence of each element, in the order of
  insertion.
\<close>

definition new_Set :: "'a list \<Rightarrow> 'a list" where
  "new_Set xs = foldl (\<lambda>acc x. if x \<in> set acc then acc else acc @ [x]) [] xs"

text \<open>\<^verbatim>\<open>Boolean(id)\<close> for a string: the empty string is the only falsy one.\<close>

definition Boolean :: "string \<Rightarrow> bool" where
  "Boolean s = (s \<noteq> [])"

text \<open>\<^verbatim>\<open>o[k] || 0\<close>: a missing property reads \<^verbatim>\<open>undefined\<close>, and \<^verbatim>\<open>undefined\<close> and \<^verbatim>\<open>0\<close> give \<^verbatim>\<open>0\<close>.\<close>

definition or_zero :: "rat option \<Rightarrow> rat" where
  "or_zero v = (case v of None \<Rightarrow> 0 | Some x \<Rightarrow> if x = 0 then 0 else x)"

text \<open>
  The effect of \<^verbatim>\<open>src/index.tsx\<close> that runs when \<^verbatim>\<open>formData.main_surgeon_id\<close> or
  \<^verbatim>\<open>formData.participating_ids\<close> has changed. It reads the ids from the state of the
  current render (\<open>formData\<close>) and passes \<^verbatim>\<open>setFormData\<close> an updater, which receives the
  latest state (\<open>prev\<close>). An assignment \<^verbatim>\<open>newFees[k] = v\<close> is \<^const>\<open>AList.update\<close>: it
  overwrites the property \<open>k\<close> in place or appends it.
\<close>

definition fees_effect ::
  "(string, 'h, 't, 'z) formData_scheme \<Rightarrow> (string, 'h, 't, 'z) formData_scheme
     \<Rightarrow> (string, 'h, 't, 'z) formData_scheme" where
  "fees_effect formData prev =
     (let allDoctorIds = main_surgeon_id formData # participating_ids formData;
          uniqueDoctorIds = filter Boolean (new_Set allDoctorIds);
          newFees = foldl (\<lambda>newFees i. AList.update i (or_zero (map_of (fees prev) i)) newFees)
                      [] uniqueDoctorIds
      in prev\<lparr>fees := newFees\<rparr>)"

text \<open>
  The two handlers of the form that change the members: \<^verbatim>\<open>handleChange\<close> on the select
  named \<^verbatim>\<open>main_surgeon_id\<close>, and \<^verbatim>\<open>handleCheckboxChange\<close>, which toggles a participant.
\<close>

definition handleChange_main_surgeon_id ::
  "string \<Rightarrow> (string, 'h, 't, 'z) formData_scheme \<Rightarrow> (string, 'h, 't, 'z) formData_scheme" where
  "handleChange_main_surgeon_id v prev = prev\<lparr>main_surgeon_id := v\<rparr>"

definition handleCheckboxChange ::
  "string \<Rightarrow> (string, 'h, 't, 'z) formData_scheme \<Rightarrow> (string, 'h, 't, 'z) formData_scheme" where
  "handleCheckboxChange doctorId prev =
     prev\<lparr>participating_ids :=
       (if doctorId \<in> set (participating_ids prev)
        then filter (\<lambda>i. i \<noteq> doctorId) (participating_ids prev)
        else participating_ids prev @ [doctorId])\<rparr>"

text \<open>The members of a form state: the primary surgeon and the participants, without the empty id.\<close>

definition members :: "(string, 'h, 't, 'z) formData_scheme \<Rightarrow> string set" where
  "members f = {i \<in> set (main_surgeon_id f # participating_ids f). i \<noteq> []}"

text \<open>A form state whose fee record holds a fee for a doctor who is no member.\<close>

definition sample_form :: "(string, int, unit, int) Surgery" where
  "sample_form = (sample_surgery Agendada)\<lparr>fees := [(''d1'', 1000), (''d9'', 5)]\<rparr>"

section \<open>Reports (ReportsView, \<^verbatim>\<open>reports\<close>)\<close>












section \<open>Attachment upload path (App, \<^verbatim>\<open>handleSaveSurgery\<close>)\<close>

text \<open>
  A JavaScript string is a sequence of UTF-16 code units, here natural numbers.
  \<^verbatim>\<open>String.prototype.normalize('NFD')\<close> is a table of the runtime and not of the repository:
  the functions below take it as the parameter \<open>nfd\<close>.
\<close>

type_synonym js_string = "nat list"

text \<open>\<^verbatim>\<open>/[\u0300-\u036f]/\<close>\<close>

definition combining_mark :: "nat \<Rightarrow> bool" where
  "combining_mark c = (768 \<le> c \<and> c \<le> 879)"

text \<open>\<^verbatim>\<open>/[a-zA-Z0-9.\-_]/\<close>\<close>

definition allowed_unit :: "nat \<Rightarrow> bool" where
  "allowed_unit c =
     (97 \<le> c \<and> c \<le> 122 \<or> 65 \<le> c \<and> c \<le> 90 \<or> 48 \<le> c \<and> c \<le> 57
      \<or> c = 46 \<or> c = 45 \<or> c = 95)"

text \<open>\<^verbatim>\<open>/\s/\<close>: the white space and line terminator code units of ECMAScript.\<close>

definition whitespace :: "nat \<Rightarrow> bool" where
  "whitespace c =
     (c \<in> set [9, 10, 11, 12, 13, 32, 160, 5760, 8232, 8233, 8239, 8287, 12288, 65279]
      \<or> 8192 \<le> c \<and> c \<le> 8202)"

text \<open>\<^verbatim>\<open>.replace(/\s+/g, '_')\<close>: each maximal run of white space becomes one underscore.\<close>

function replace_whitespace_runs :: "js_string \<Rightarrow> js_string" where
  "replace_whitespace_runs [] = []"
| "replace_whitespace_runs (c # cs) =
     (if whitespace c then 95 # replace_whitespace_runs (dropWhile whitespace cs)
      else c # replace_whitespace_runs cs)"
  by pat_completeness auto
termination
  by (relation "measure length") (auto simp: less_Suc_eq_le length_dropWhile_le)

text \<open>
  \<^verbatim>\<open>name.normalize('NFD').replace(/[\u0300-\u036f]/g, '')
  .replace(/[^a-zA-Z0-9.\-_]/g, '_').replace(/\s+/g, '_')\<close>, in \<^verbatim>\<open>src/unnamed/part_000\<close>.
\<close>

definition sanitizeFilename :: "(js_string \<Rightarrow> js_string) \<Rightarrow> js_string \<Rightarrow> js_string" where
  "sanitizeFilename nfd name =
     replace_whitespace_runs
       (map (\<lambda>c. if allowed_unit c then c else 95)
          (filter (\<lambda>c. \<not> combining_mark c) (nfd name)))"

text \<open>\<^verbatim>\<open>String(n)\<close> for a natural number: its decimal digits.\<close>

fun decimal :: "nat \<Rightarrow> js_string" where
  "decimal n = (if n < 10 then [48 + n] else decimal (n div 10) @ [48 + n mod 10])"

declare decimal.simps [simp del]

text \<open>
  The path of an upload, \<^verbatim>\<open>`${loggedInUser.id}/${Date.now()}-${...}`\<close>. In
  \<^verbatim>\<open>src/unnamed/part_000\<close> the last part is the sanitized name; in \<^verbatim>\<open>src/index.tsx\<close> it is
  \<^verbatim>\<open>files.preOp.name\<close> as it comes (its comment gives the pattern
  \<^verbatim>\<open>'uuid-do-usuario/timestamp-atual-nome-original.pdf'\<close>).
\<close>

definition filePath_part000 ::
  "(js_string \<Rightarrow> js_string) \<Rightarrow> js_string \<Rightarrow> nat \<Rightarrow> js_string \<Rightarrow> js_string" where
  "filePath_part000 nfd ownerId now name =
     ownerId @ [47] @ decimal now @ [45] @ sanitizeFilename nfd name"

definition filePath :: "js_string \<Rightarrow> nat \<Rightarrow> js_string \<Rightarrow> js_string" where
  "filePath ownerId now name = ownerId @ [47] @ decimal now @ [45] @ name"

text \<open>
  A fragment of the canonical decomposition, for the examples: \<open>a\<close> with tilde and \<open>c\<close> with
  cedilla decompose into the letter and a combining mark.
\<close>

definition sample_nfd :: "js_string \<Rightarrow> js_string" where
  "sample_nfd name =
     concat (map (\<lambda>c. if c = 227 then [97, 771] else if c = 231 then [99, 807] else [c]) name)"

section \<open>Dates (the ECMAScript \<^verbatim>\<open>Date\<close> object)\<close>

text \<open>
  A \<^verbatim>\<open>Date\<close> that is not the invalid date is its time value, the milliseconds since
  1970-01-01T00:00:00Z, and the functions below are the abstract operations of the
  ECMAScript specification (section "Date Objects") on it, with days in place of
  milliseconds where only the day matters. The invalid date is \<open>None\<close> where it can occur,
  as the result of reading a string. Time values are unbounded: the range limit of
  \<^verbatim>\<open>TimeClip\<close>, near the years -271821 and 275760, is left out.
\<close>

type_synonym Date = int

definition msPerDay :: int where
  "msPerDay = 86400000"

definition Day :: "int \<Rightarrow> int" where
  "Day t = t div msPerDay"

definition TimeWithinDay :: "int \<Rightarrow> int" where
  "TimeWithinDay t = t mod msPerDay"

definition DaysInYear :: "int \<Rightarrow> int" where
  "DaysInYear y =
     (if y mod 4 \<noteq> 0 then 365 else if y mod 100 \<noteq> 0 then 366
      else if y mod 400 \<noteq> 0 then 365 else 366)"

definition DayFromYear :: "int \<Rightarrow> int" where
  "DayFromYear y =
     365 * (y - 1970) + (y - 1969) div 4 - (y - 1901) div 100 + (y - 1601) div 400"

text \<open>
  \<^verbatim>\<open>YearFromTime\<close> is specified as the largest year \<open>y\<close> with \<open>DayFromYear y\<close> at most the
  day. The function computes it, counting from 1601 the whole cycles of 400, 100 and 4
  years and the years that remain; \<open>YearFromDay_unique\<close> below shows that it does.
\<close>

definition YearFromDay :: "int \<Rightarrow> int" where
  "YearFromDay d =
     (let e = d + 134774;
          n400 = e div 146097; r = e mod 146097;
          n100 = min (r div 36524) 3; r2 = r - n100 * 36524;
          n4 = r2 div 1461; r3 = r2 mod 1461;
          n1 = min (r3 div 365) 3
      in 1601 + 400 * n400 + 100 * n100 + 4 * n4 + n1)"

definition InLeapYear :: "int \<Rightarrow> bool" where
  "InLeapYear d = (DaysInYear (YearFromDay d) = 366)"

definition DayWithinYear :: "int \<Rightarrow> int" where
  "DayWithinYear d = d - DayFromYear (YearFromDay d)"

text \<open>The first day, within its year, of month \<open>m\<close> (0 is January).\<close>

definition month_start :: "int \<Rightarrow> bool \<Rightarrow> int" where
  "month_start m leap =
     (if m = 0 then 0 else if m = 1 then 31
      else (if leap then 1 else 0) +
        (if m = 2 then 59 else if m = 3 then 90 else if m = 4 then 120
         else if m = 5 then 151 else if m = 6 then 181 else if m = 7 then 212
         else if m = 8 then 243 else if m = 9 then 273 else if m = 10 then 304
         else 334))"

text \<open>The number of days of month \<open>m\<close>.\<close>

definition month_length :: "int \<Rightarrow> bool \<Rightarrow> int" where
  "month_length m leap =
     (if m = 1 then (if leap then 29 else 28)
      else if m = 3 \<or> m = 5 \<or> m = 8 \<or> m = 10 then 30 else 31)"

text \<open>The Gregorian calendar: the number of days of month \<open>m\<close> (0 is January) of year \<open>y\<close>.\<close>

definition days_in_month :: "int \<Rightarrow> int \<Rightarrow> int" where
  "days_in_month y m = month_length m (DaysInYear y = 366)"

definition month_of_year_day :: "int \<Rightarrow> bool \<Rightarrow> int" where
  "month_of_year_day n leap =
     (let l = (if leap then 1 else 0) in
      if n < 31 then 0 else if n < 59 + l then 1 else if n < 90 + l then 2
      else if n < 120 + l then 3 else if n < 151 + l then 4 else if n < 181 + l then 5
      else if n < 212 + l then 6 else if n < 243 + l then 7 else if n < 273 + l then 8
      else if n < 304 + l then 9 else if n < 334 + l then 10 else 11)"

definition MonthFromDay :: "int \<Rightarrow> int" where
  "MonthFromDay d = month_of_year_day (DayWithinYear d) (InLeapYear d)"

definition DateFromDay :: "int \<Rightarrow> int" where
  "DateFromDay d = DayWithinYear d - month_start (MonthFromDay d) (InLeapYear d) + 1"

definition WeekDay :: "int \<Rightarrow> int" where
  "WeekDay d = (d + 4) mod 7"

definition HourFromTime :: "int \<Rightarrow> int" where
  "HourFromTime t = (t div 3600000) mod 24"

definition MinFromTime :: "int \<Rightarrow> int" where
  "MinFromTime t = (t div 60000) mod 60"

definition SecFromTime :: "int \<Rightarrow> int" where
  "SecFromTime t = (t div 1000) mod 60"

definition msFromTime :: "int \<Rightarrow> int" where
  "msFromTime t = t mod 1000"

definition MakeTime :: "int \<Rightarrow> int \<Rightarrow> int \<Rightarrow> int \<Rightarrow> int" where
  "MakeTime h m s milli = h * 3600000 + m * 60000 + s * 1000 + milli"

text \<open>
  \<^verbatim>\<open>MakeDay\<close> carries the months beyond a year into the year, takes the day on which that
  month starts, and adds the date less one; a date of 0 is the last day of the month
  before.
\<close>

definition MakeDay :: "int \<Rightarrow> int \<Rightarrow> int \<Rightarrow> int" where
  "MakeDay year month date =
     (let ym = year + month div 12; mn = month mod 12
      in DayFromYear ym + month_start mn (DaysInYear ym = 366) + date - 1)"

definition MakeDate :: "int \<Rightarrow> int \<Rightarrow> int" where
  "MakeDate day time = day * msPerDay + time"

text \<open>
  The time zone of the browser is a parameter, the two readings of the offset that
  ECMAScript calls \<^verbatim>\<open>LocalTZA\<close>, both in milliseconds: \<open>offset_at\<close> is the offset of local time
  from UTC at an instant, and \<open>offset_of_local\<close> is the offset with which a local time is
  read. Where the clock is moved forward the local times in between do not exist, and
  where it is moved back they occur twice; ECMAScript reads such a local time with the
  offset before the change. Nothing is assumed of the two functions.
\<close>

record zone =
  offset_at :: "int \<Rightarrow> int"
  offset_of_local :: "int \<Rightarrow> int"

definition LocalTime :: "zone \<Rightarrow> Date \<Rightarrow> int" where
  "LocalTime tz t = t + offset_at tz t"

definition UTC :: "zone \<Rightarrow> int \<Rightarrow> Date" where
  "UTC tz t = t - offset_of_local tz t"

text \<open>A zone whose local time is UTC plus a fixed offset, in minutes.\<close>

definition fixed_zone :: "int \<Rightarrow> zone" where
  "fixed_zone minutes =
     \<lparr>offset_at = (\<lambda>t. minutes * 60000), offset_of_local = (\<lambda>t. minutes * 60000)\<rparr>"

text \<open>
  A zone that is five hours behind UTC until 2024-03-10T07:00:00Z and four hours behind
  from then on, as New York is in the first half of 2024: at 02:00 local time the clock
  moves to 03:00. The local times from 02:00 to 03:00 of that day are read five hours
  behind UTC.
\<close>

definition spring_forward_zone :: zone where
  "spring_forward_zone =
     \<lparr>offset_at = (\<lambda>t. if t < 1710054000000 then - 18000000 else - 14400000),
      offset_of_local = (\<lambda>t. if t < 1710039600000 then - 18000000 else - 14400000)\<rparr>"

text \<open>
  A local time exists in a zone when reading it and writing the instant in local time
  gives it back. Every local time of a zone with a fixed offset exists; of
  \<^const>\<open>spring_forward_zone\<close> the local times from 02:00 to 03:00 of 10 March 2024 do not.
\<close>

definition local_time_exists :: "zone \<Rightarrow> int \<Rightarrow> bool" where
  "local_time_exists tz t \<longleftrightarrow> LocalTime tz (UTC tz t) = t"

text \<open>
  \<^verbatim>\<open>new Date(year, month, date)\<close>: a year from 0 to 99 stands for the year 1900 later
  (\<^verbatim>\<open>MakeFullYear\<close>); the time of day is local midnight.
\<close>

definition MakeFullYear :: "int \<Rightarrow> int" where
  "MakeFullYear y = (if 0 \<le> y \<and> y \<le> 99 then 1900 + y else y)"

definition new_Date :: "zone \<Rightarrow> int \<Rightarrow> int \<Rightarrow> int \<Rightarrow> Date" where
  "new_Date tz year month date =
     UTC tz (MakeDate (MakeDay (MakeFullYear year) month date) (MakeTime 0 0 0 0))"

definition getFullYear :: "zone \<Rightarrow> Date \<Rightarrow> int" where
  "getFullYear tz t = YearFromDay (Day (LocalTime tz t))"

definition getMonth :: "zone \<Rightarrow> Date \<Rightarrow> int" where
  "getMonth tz t = MonthFromDay (Day (LocalTime tz t))"

definition getDate :: "zone \<Rightarrow> Date \<Rightarrow> int" where
  "getDate tz t = DateFromDay (Day (LocalTime tz t))"

definition getDay :: "zone \<Rightarrow> Date \<Rightarrow> int" where
  "getDay tz t = WeekDay (Day (LocalTime tz t))"

definition getHours :: "zone \<Rightarrow> Date \<Rightarrow> int" where
  "getHours tz t = HourFromTime (LocalTime tz t)"

definition getMinutes :: "zone \<Rightarrow> Date \<Rightarrow> int" where
  "getMinutes tz t = MinFromTime (LocalTime tz t)"

definition getSeconds :: "zone \<Rightarrow> Date \<Rightarrow> int" where
  "getSeconds tz t = SecFromTime (LocalTime tz t)"

text \<open>\<^verbatim>\<open>d.setHours(h, m, s)\<close>: the day and the milliseconds of \<open>d\<close> stay.\<close>

definition setHours :: "zone \<Rightarrow> Date \<Rightarrow> int \<Rightarrow> int \<Rightarrow> int \<Rightarrow> Date" where
  "setHours tz t h m s =
     UTC tz (MakeDate (Day (LocalTime tz t)) (MakeTime h m s (msFromTime (LocalTime tz t))))"

text \<open>
  A timestamp string, by its text.

  \<^item> \<open>Local_minutes y mo d h mi\<close> is the text that the template literals of the source write
    from five numbers: the year in decimal as it is, then the month, the day, the hour
    and the minute padded to two digits, \<^verbatim>\<open>Y-MM-DDTHH:mm\<close>. For a year from 1000 to 9999 it
    is the text \<^verbatim>\<open>YYYY-MM-DDTHH:mm\<close> of the date-time format, which is also what an
    \<^verbatim>\<open>input type="datetime-local"\<close> holds.
  \<^item> \<open>Local_NaN y mo d\<close> is the text that the template literals write when the hour and the
    minute are \<^verbatim>\<open>NaN\<close>: \<^verbatim>\<open>Y-MM-DDTNaN:NaN\<close>.
  \<^item> \<open>Local_seconds y mo d h mi s\<close> is the text \<^verbatim>\<open>YYYY-MM-DDTHH:mm:ss\<close>, the year padded to
    four digits.
  \<^item> \<open>ISO_instant t\<close> is a text with a zone that denotes the instant \<open>t\<close>, such as the result
    of \<^verbatim>\<open>toISOString\<close>: \<^verbatim>\<open>Date.parse(x.toISOString())\<close> is \<^verbatim>\<open>x.valueOf()\<close>.

  \<^verbatim>\<open>new Date(string)\<close> reads a date-time without a zone as local time. It reads the texts
  of the date-time format whose fields are a date of the calendar and a time of the day,
  and gives the invalid date for a text that is not in the format: a year that is not
  written with four digits, or \<^verbatim>\<open>NaN\<close> for a field. The hour 24 with no minutes and seconds
  is the end of the day. What an engine makes of a text of the format whose day is beyond
  the end of its month differs between engines; the model takes such a text as not read,
  and what is proved below of a timestamp is proved of one that is read.
\<close>

datatype date_string =
    Local_minutes int int int int int
  | Local_NaN int int int
  | Local_seconds int int int int int int
  | ISO_instant int

definition fields_in_range :: "int \<Rightarrow> int \<Rightarrow> int \<Rightarrow> int \<Rightarrow> int \<Rightarrow> int \<Rightarrow> bool" where
  "fields_in_range y mo d h mi s \<longleftrightarrow>
     1 \<le> mo \<and> mo \<le> 12 \<and> 1 \<le> d \<and> d \<le> days_in_month y (mo - 1)
     \<and> 0 \<le> mi \<and> mi \<le> 59 \<and> 0 \<le> s \<and> s \<le> 59
     \<and> (0 \<le> h \<and> h \<le> 23 \<or> h = 24 \<and> mi = 0 \<and> s = 0)"

fun Date_parse :: "zone \<Rightarrow> date_string \<Rightarrow> Date option" where
  "Date_parse tz (Local_minutes y mo d h mi) =
     (if 1000 \<le> y \<and> y \<le> 9999 \<and> fields_in_range y mo d h mi 0
      then Some (UTC tz (MakeDate (MakeDay y (mo - 1) d) (MakeTime h mi 0 0))) else None)"
| "Date_parse tz (Local_NaN y mo d) = None"
| "Date_parse tz (Local_seconds y mo d h mi s) =
     (if 0 \<le> y \<and> y \<le> 9999 \<and> fields_in_range y mo d h mi s
      then Some (UTC tz (MakeDate (MakeDay y (mo - 1) d) (MakeTime h mi s 0))) else None)"
| "Date_parse tz (ISO_instant t) = Some t"

definition toISOString :: "Date \<Rightarrow> date_string" where
  "toISOString t = ISO_instant t"

section \<open>Month grid (CalendarView, \<^verbatim>\<open>calendarGrid\<close>)\<close>

text \<open>
  The memo of \<^verbatim>\<open>src/unnamed/part_002\<close>; \<^verbatim>\<open>src/index.tsx\<close> and \<^verbatim>\<open>src/unnamed/part_000\<close>
  compute the same list under the name \<^verbatim>\<open>monthGrid\<close>, with \<^verbatim>\<open>Array(firstDayOfMonth).fill(null)\<close>
  for the first loop. A cell is \<^verbatim>\<open>null\<close> or a date.
\<close>

definition calendarGrid :: "zone \<Rightarrow> Date \<Rightarrow> Date option list" where
  "calendarGrid tz currentDate =
     (let year = getFullYear tz currentDate;
          month = getMonth tz currentDate;
          firstDayOfMonth = getDay tz (new_Date tz year month 1);
          daysInMonth = getDate tz (new_Date tz year (month + 1) 0)
      in replicate (nat firstDayOfMonth) None
           @ map (\<lambda>i. Some (new_Date tz year month i)) [1..daysInMonth])"

section \<open>Drag and drop rescheduling (App, \<^verbatim>\<open>handleSurgeryDrop\<close>)\<close>

text \<open>
  \<^verbatim>\<open>src/index.tsx\<close> and \<^verbatim>\<open>src/unnamed/part_002\<close> build the new timestamp with the same
  template literal, from the year, month and date of the target and the hours and
  minutes of the old timestamp, each read in local time:
  \<^verbatim>\<open>`${newDate.getFullYear()}-${pad(newDate.getMonth() + 1)}-${pad(newDate.getDate())}T${pad(oldDateTime.getHours())}:${pad(oldDateTime.getMinutes())}`\<close>
  where \<^verbatim>\<open>pad(x)\<close> stands for \<^verbatim>\<open>String(x).padStart(2, '0')\<close>. The string has no seconds, and
  the year is written as it is. The target is a date of the grid, never the invalid date.
  When the old timestamp cannot be read, \<^verbatim>\<open>oldDateTime\<close> is the invalid date, both its
  getters give \<^verbatim>\<open>NaN\<close>, and the template writes \<^verbatim>\<open>NaN\<close> for the hour and for the minute.
\<close>

definition newDateTimeString :: "zone \<Rightarrow> date_string \<Rightarrow> Date \<Rightarrow> date_string" where
  "newDateTimeString tz old_date_time newDate =
     (case Date_parse tz old_date_time of
        Some oldDateTime \<Rightarrow>
          Local_minutes (getFullYear tz newDate) (getMonth tz newDate + 1) (getDate tz newDate)
            (getHours tz oldDateTime) (getMinutes tz oldDateTime)
      | None \<Rightarrow>
          Local_NaN (getFullYear tz newDate) (getMonth tz newDate + 1) (getDate tz newDate))"

text \<open>
  \<^verbatim>\<open>src/unnamed/part_000\<close> copies the target, sets its hours, minutes and seconds to those
  of the old timestamp and writes the result of \<^verbatim>\<open>toISOString\<close>. When the old timestamp
  cannot be read, the getters give \<^verbatim>\<open>NaN\<close>, \<^verbatim>\<open>setHours\<close> makes the copy the invalid date, and
  \<^verbatim>\<open>toISOString\<close> throws a \<^verbatim>\<open>RangeError\<close>.
\<close>

datatype js_error = RangeError

definition newDateTimeUTC :: "zone \<Rightarrow> date_string \<Rightarrow> Date \<Rightarrow> js_error + date_string" where
  "newDateTimeUTC tz old_date_time newDate =
     (case Date_parse tz old_date_time of
        Some oldDateTime \<Rightarrow>
          (let newDateTime = setHours tz newDate (getHours tz oldDateTime)
                               (getMinutes tz oldDateTime) (getSeconds tz oldDateTime)
           in Inr (toISOString newDateTime))
      | None \<Rightarrow> Inl RangeError)"

text \<open>
  What a handler does besides returning: the rows it asks the database to update, each
  with the id of \<^verbatim>\<open>.eq('id', ...)\<close> and the new value of the one column \<^verbatim>\<open>date_time\<close>, and the
  notifications it shows. The answer of the database is the parameter \<open>response\<close>, the
  message of an error or nothing.
\<close>

datatype ToastType = success | error

record 'i drop_effects =
  updates :: "('i \<times> date_string) list"
  toasts :: "(string \<times> ToastType) list"

definition no_effects :: "'i drop_effects" where
  "no_effects = \<lparr>updates = [], toasts = []\<rparr>"

definition reschedule_toast :: "string option \<Rightarrow> string \<times> ToastType" where
  "reschedule_toast response =
     (case response of
        Some message \<Rightarrow> (''Erro ao reagendar cirurgia: '' @ message, error)
      | None \<Rightarrow> (''Cirurgia reagendada com sucesso!'', success))"

text \<open>
  \<^verbatim>\<open>src/index.tsx\<close>: the timestamp of a surgery is a string, never null. Nothing in the
  handler throws.
\<close>

definition handleSurgeryDrop ::
  "zone \<Rightarrow> ('d, 'h, date_string, 'i) Surgery list \<Rightarrow> 'i \<Rightarrow> Date \<Rightarrow> string option
     \<Rightarrow> 'i drop_effects" where
  "handleSurgeryDrop tz surgeries surgeryId newDate response =
     (case find (\<lambda>s. surgery_id s = surgeryId) surgeries of
        None \<Rightarrow> no_effects
      | Some surgeryToMove \<Rightarrow>
          \<lparr>updates = [(surgeryId, newDateTimeString tz (date_time surgeryToMove) newDate)],
           toasts = [reschedule_toast response]\<rparr>)"

text \<open>
  \<^verbatim>\<open>src/unnamed/part_000\<close>: the timestamp may be null, and
  \<^verbatim>\<open>if (!surgeryToMove || !surgeryToMove.date_time) return;\<close>
  (the empty string would pass for null in this test; no \<^typ>\<open>date_string\<close> is the empty
  text). The handler is an \<^verbatim>\<open>async\<close> function; the error that \<^verbatim>\<open>toISOString\<close> throws ends it
  before anything is written.
\<close>

definition handleSurgeryDrop_part000 ::
  "zone \<Rightarrow> ('d, 'h, date_string option, 'i) Surgery list \<Rightarrow> 'i \<Rightarrow> Date \<Rightarrow> string option
     \<Rightarrow> js_error + 'i drop_effects" where
  "handleSurgeryDrop_part000 tz surgeries surgeryId newDate response =
     (case find (\<lambda>s. surgery_id s = surgeryId) surgeries of
        None \<Rightarrow> Inr no_effects
      | Some surgeryToMove \<Rightarrow>
          (case date_time surgeryToMove of
             None \<Rightarrow> Inr no_effects
           | Some old \<Rightarrow>
               (case newDateTimeUTC tz old newDate of
                  Inl e \<Rightarrow> Inl e
                | Inr written \<Rightarrow>
                    Inr \<lparr>updates = [(surgeryId, written)],
                         toasts = [reschedule_toast response]\<rparr>)))"

text \<open>
  \<^verbatim>\<open>src/unnamed/part_002\<close> keeps the surgeries in the state of the component and in the
  storage of the browser, through the hook \<^verbatim>\<open>useLocalStorage\<close>. The setter of the hook,
  given a function (the \<open>updater\<close>), applies it to the stored value, makes the result the
  state and writes it to the storage under the key of the hook:
  \<^verbatim>\<open>const valueToStore = value instanceof Function ? value(storedValue) : value;\<close>
  \<^verbatim>\<open>setStoredValue(valueToStore);\<close>
  \<^verbatim>\<open>window.localStorage.setItem(key, JSON.stringify(valueToStore));\<close>
  The three statements are in a \<^verbatim>\<open>try\<close> whose \<^verbatim>\<open>catch\<close> logs the error, so the setter does
  not throw. The result below is the new state, the calls of \<^verbatim>\<open>setItem\<close>, each with its key
  and the value whose JSON text is written, and what the updater has shown on the way.
\<close>

definition setValue ::
  "string \<Rightarrow> ('s \<Rightarrow> 's \<times> 'n list) \<Rightarrow> 's \<Rightarrow> 's \<times> (string \<times> 's) list \<times> 'n list" where
  "setValue key updater storedValue =
     (let (valueToStore, shown) = updater storedValue
      in (valueToStore, [(key, valueToStore)], shown))"

text \<open>
  The updater that the handler of \<^verbatim>\<open>src/unnamed/part_002\<close> passes to \<^verbatim>\<open>setSurgeries\<close>: it
  returns the new collection and shows a notification on the way.
\<close>

definition drop_updater_part002 ::
  "zone \<Rightarrow> 'i \<Rightarrow> Date \<Rightarrow> ('d, 'h, date_string, 'i) Surgery list
     \<Rightarrow> ('d, 'h, date_string, 'i) Surgery list \<times> (string \<times> ToastType) list" where
  "drop_updater_part002 tz surgeryId newDate prev =
     (case find (\<lambda>s. surgery_id s = surgeryId) prev of
        None \<Rightarrow> (prev, [])
      | Some surgeryToMove \<Rightarrow>
          (let updatedSurgery =
                 surgeryToMove\<lparr>date_time := newDateTimeString tz (date_time surgeryToMove) newDate\<rparr>
           in (map (\<lambda>s. if surgery_id s = surgeryId then updatedSurgery else s) prev,
               [(''Cirurgia de '' @ patient_name updatedSurgery @ '' reagendada.'', success)])))"

text \<open>
  The handler of \<^verbatim>\<open>src/unnamed/part_002\<close>, \<^verbatim>\<open>setSurgeries(prev => ...)\<close>, where \<^verbatim>\<open>setSurgeries\<close> is
  the setter of \<^verbatim>\<open>useLocalStorage('surgeries', [])\<close>: the first component of the result is the
  new collection, the second the writes to the storage, the third the notifications.
\<close>

definition handleSurgeryDrop_part002 ::
  "zone \<Rightarrow> 'i \<Rightarrow> Date \<Rightarrow> ('d, 'h, date_string, 'i) Surgery list
     \<Rightarrow> ('d, 'h, date_string, 'i) Surgery list
         \<times> (string \<times> ('d, 'h, date_string, 'i) Surgery list) list
         \<times> (string \<times> ToastType) list" where
  "handleSurgeryDrop_part002 tz surgeryId newDate surgeries =
     setValue ''surgeries'' (drop_updater_part002 tz surgeryId newDate) surgeries"

text \<open>
  The local time that the drag is to give the surgery: the local day of the target at
  the local hour and minute of the old timestamp, with no seconds, which is what the
  template literal writes; and with the local second of the old timestamp and the
  milliseconds of the target, which is what \<^verbatim>\<open>setHours\<close> of \<^verbatim>\<open>src/unnamed/part_000\<close> sets.
\<close>

definition new_local_minutes :: "zone \<Rightarrow> Date \<Rightarrow> Date \<Rightarrow> int" where
  "new_local_minutes tz oldDateTime newDate =
     MakeDate (Day (LocalTime tz newDate))
       (MakeTime (getHours tz oldDateTime) (getMinutes tz oldDateTime) 0 0)"

definition new_local_seconds :: "zone \<Rightarrow> Date \<Rightarrow> Date \<Rightarrow> int" where
  "new_local_seconds tz oldDateTime newDate =
     MakeDate (Day (LocalTime tz newDate))
       (MakeTime (getHours tz oldDateTime) (getMinutes tz oldDateTime)
          (getSeconds tz oldDateTime) (msFromTime (LocalTime tz newDate)))"

text \<open>
  A surgery with a timestamp, for the examples, and the target of the examples: the cell
  of 15 March 2024, that is \<^verbatim>\<open>new Date(2024, 2, 15)\<close>.
\<close>

definition surgery_at :: "'t \<Rightarrow> (string, int, 't, int) Surgery" where
  "surgery_at t =
     \<lparr>patient_name = ''Ana'', main_surgeon_id = ''d1'', participating_ids = [''d2''],
      date_time = t, hospital_id = 1, insurance_id = 2, auth_status = Liberado,
      surgery_status = Agendada, fees = [(''d1'', 1000)], material_cost = 0, notes_text = [],
      pre_op_xray_path = None, post_op_xray_path = None, surgery_id = 7\<rparr>"
section \<open>Theorems\<close>

subsection \<open>Event filter\<close>

lemma selected_differs_iff: "selected_differs f x \<longleftrightarrow> \<not> status_predicate f x"
  by (cases f) simp_all

lemma doctor_rejects_iff: "doctor_rejects f s \<longleftrightarrow> \<not> doctor_predicate f s"
  by (cases f) auto

lemma keep_surgery_iff: "keep_surgery df af s \<longleftrightarrow> every_active_predicate df af s"
  by (simp add: keep_surgery_def every_active_predicate_def selected_differs_iff
      doctor_rejects_iff)

lemma keep_surgery_part000_iff:
  "keep_surgery_part000 df af s \<longleftrightarrow>
     surgery_status s \<in> {Agendada, Realizada} \<and> every_active_predicate df af s"
  by (auto simp: keep_surgery_part000_def every_active_predicate_def selected_differs_iff
      doctor_rejects_iff)

text \<open>
  C4, as stated, fails in \<^verbatim>\<open>src/unnamed/part_000\<close>: with every filter at \<^verbatim>\<open>'all'\<close> a cancelled
  surgery satisfies every active predicate (none is active), yet the filter drops it,
  because that generation keeps only the surgeries that are scheduled or completed.
\<close>

theorem filter_part000_drops_cancelled:
  "every_active_predicate All no_filter (sample_surgery Cancelada)
   \<and> filteredSurgeries_part000 [sample_surgery Cancelada] All no_filter = []"
  by (simp add: every_active_predicate_def no_filter_def sample_surgery_def
      filteredSurgeries_part000_def keep_surgery_part000_def)

text \<open>
  C4, amended: in \<^verbatim>\<open>src/index.tsx\<close> the filter keeps exactly the surgeries of the input, in
  their order, that satisfy every active predicate; in \<^verbatim>\<open>src/unnamed/part_000\<close> it keeps
  exactly those that satisfy every active predicate and whose lifecycle state is
  \<^verbatim>\<open>'Agendada'\<close> or \<^verbatim>\<open>'Realizada'\<close>. A status predicate is equality with the selected value,
  \<^verbatim>\<open>'all'\<close> disables it, and the doctor predicate holds when the selected id is the primary
  surgeon or a participant.
\<close>

theorem filter_conjunctive:
  "filteredSurgeries surgeries df af = filter (every_active_predicate df af) surgeries
   \<and> (s \<in> set (filteredSurgeries surgeries df af)
        \<longleftrightarrow> s \<in> set surgeries \<and> every_active_predicate df af s)
   \<and> filteredSurgeries_part000 surgeries df af =
       filter (\<lambda>s. surgery_status s \<in> {Agendada, Realizada} \<and> every_active_predicate df af s)
         surgeries
   \<and> (s \<in> set (filteredSurgeries_part000 surgeries df af)
        \<longleftrightarrow> s \<in> set surgeries \<and> surgery_status s \<in> {Agendada, Realizada}
            \<and> every_active_predicate df af s)"
  by (simp add: filteredSurgeries_def filteredSurgeries_part000_def keep_surgery_iff
      keep_surgery_part000_iff cong: filter_cong)

subsection \<open>Change feed\<close>

lemma ids_after_update:
  "map (surgery_id \<circ> (\<lambda>s. if surgery_id s = surgery_id n then n else s)) cur
     = map surgery_id cur"
  by (induction cur) simp_all

text \<open>
  C5, as stated, fails: an insertion is appended whether or not a surgery with that id is
  present, so a change that repeats a present id (the row was already in the snapshot that
  \<^verbatim>\<open>fetchData\<close> loaded) leaves two surgeries with one id.
\<close>

theorem insert_appends_present_id:
  "postgres_changes (INSERT (sample_surgery Agendada)) [sample_surgery Agendada]
     = [sample_surgery Agendada, sample_surgery Agendada]
   \<and> \<not> distinct (map surgery_id
         (postgres_changes (INSERT (sample_surgery Agendada)) [sample_surgery Agendada]))"
  by simp

text \<open>
  C5, amended: an insertion appends the new surgery at the end, without looking for its
  id; an update puts the new row in the place of every surgery with its id and a deletion
  removes every surgery with the old id, both leaving every other surgery as it is and in
  its place. The ids of the collection stay distinct when they were distinct before and
  an inserted id was not present.
\<close>

theorem delta_folding:
  "postgres_changes (INSERT n) cur = cur @ [n]
   \<and> length (postgres_changes (UPDATE n) cur) = length cur
   \<and> (\<forall>i < length cur. postgres_changes (UPDATE n) cur ! i =
          (if surgery_id (cur ! i) = surgery_id n then n else cur ! i))
   \<and> postgres_changes (DELETE k) cur = filter (\<lambda>s. surgery_id s \<noteq> k) cur
   \<and> (distinct (map surgery_id cur)
        \<and> (\<forall>m. p = INSERT m \<longrightarrow> surgery_id m \<notin> surgery_id ` set cur)
        \<longrightarrow> distinct (map surgery_id (postgres_changes p cur)))"
proof -
  have "distinct (map surgery_id (postgres_changes p cur))"
    if "distinct (map surgery_id cur)"
      and "\<forall>m. p = INSERT m \<longrightarrow> surgery_id m \<notin> surgery_id ` set cur"
    using that by (cases p) (simp_all add: ids_after_update distinct_map_filter)
  then show ?thesis by simp
qed

theorem delta_folding_witness:
  "postgres_changes (UPDATE (sample_surgery Realizada)) [sample_surgery Agendada] ! 0
     = sample_surgery Realizada
   \<and> distinct (map surgery_id
       (postgres_changes (INSERT ((sample_surgery Agendada)\<lparr>surgery_id := 8\<rparr>))
          [sample_surgery Agendada]))"
  using delta_folding [of "sample_surgery Realizada" "[sample_surgery Agendada]" 0
      "INSERT ((sample_surgery Agendada)\<lparr>surgery_id := 8\<rparr>)"]
  by (simp add: sample_surgery_def)

subsection \<open>Fee distribution\<close>

lemma new_Set_acc:
  "set (foldl (\<lambda>acc x. if x \<in> set acc then acc else acc @ [x]) acc xs) = set acc \<union> set xs
   \<and> (distinct acc \<longrightarrow>
        distinct (foldl (\<lambda>acc x. if x \<in> set acc then acc else acc @ [x]) acc xs))"
  by (induction xs arbitrary: acc) auto

lemma set_new_Set: "set (new_Set xs) = set xs"
  using new_Set_acc [of "[]" xs] by (simp add: new_Set_def)

lemma fees_loop_keys:
  "fst ` set (foldl (\<lambda>nf i. AList.update i (g i) nf) acc ids) = fst ` set acc \<union> set ids"
  by (induction ids arbitrary: acc) (auto simp: dom_update)

lemma fees_loop_distinct:
  "distinct (map fst acc) \<Longrightarrow>
   distinct (map fst (foldl (\<lambda>nf i. AList.update i (g i) nf) acc ids))"
  by (induction ids arbitrary: acc) (simp_all add: distinct_update)

lemma fees_loop_other:
  "k \<notin> set ids \<Longrightarrow>
   map_of (foldl (\<lambda>nf i. AList.update i (g i) nf) acc ids) k = map_of acc k"
  by (induction ids arbitrary: acc) (auto simp: update_conv')

lemma fees_loop_value:
  "k \<in> set ids \<Longrightarrow>
   map_of (foldl (\<lambda>nf i. AList.update i (g i) nf) acc ids) k = Some (g k)"
proof (induction ids arbitrary: acc)
  case Nil
  then show ?case by simp
next
  case (Cons i ids)
  show ?case
  proof (cases "k \<in> set ids")
    case True
    then show ?thesis using Cons.IH by simp
  next
    case False
    with Cons.prems have "k = i" by simp
    with False show ?thesis by (simp add: fees_loop_other update_conv')
  qed
qed

lemma fees_effect_keys: "fst ` set (fees (fees_effect formData prev)) = members formData"
  by (auto simp: fees_effect_def Let_def fees_loop_keys set_new_Set members_def Boolean_def)

lemma fees_effect_value:
  assumes "k \<in> members formData"
  shows "map_of (fees (fees_effect formData prev)) k
           = Some (case map_of (fees prev) k of None \<Rightarrow> 0 | Some v \<Rightarrow> v)"
proof -
  have "k \<in> set (filter Boolean (new_Set (main_surgeon_id formData # participating_ids formData)))"
    using assms by (auto simp: members_def set_new_Set Boolean_def)
  then have "map_of (fees (fees_effect formData prev)) k = Some (or_zero (map_of (fees prev) k))"
    by (simp add: fees_effect_def Let_def fees_loop_value)
  then show ?thesis by (simp add: or_zero_def split: option.splits)
qed

text \<open>
  C3: once the effect has run, the keys of the fee record are exactly the members of the
  render it ran for (the primary surgeon and the participants, without the empty id and
  each once); a member that had a fee keeps it and a member that had none gets 0; nothing
  but the fee record changes. After a change of the primary surgeon, and after a
  participant is ticked or unticked, the effect runs for the changed state, so the keys
  are the members of that state.
\<close>

theorem fees_reconciled:
  "fst ` set (fees (fees_effect formData prev)) = members formData
   \<and> distinct (map fst (fees (fees_effect formData prev)))
   \<and> (\<forall>k \<in> members formData.
         map_of (fees (fees_effect formData prev)) k
           = Some (case map_of (fees prev) k of None \<Rightarrow> 0 | Some v \<Rightarrow> v))
   \<and> (\<forall>k. k \<notin> members formData \<longrightarrow> map_of (fees (fees_effect formData prev)) k = None)
   \<and> fees_effect formData prev = prev\<lparr>fees := fees (fees_effect formData prev)\<rparr>
   \<and> fst ` set (fees (fees_effect (handleCheckboxChange d prev) (handleCheckboxChange d prev)))
       = members (handleCheckboxChange d prev)
   \<and> fst ` set (fees (fees_effect (handleChange_main_surgeon_id v prev)
                         (handleChange_main_surgeon_id v prev)))
       = members (handleChange_main_surgeon_id v prev)"
proof -
  have "distinct (map fst (fees (fees_effect formData prev)))"
    by (simp add: fees_effect_def Let_def fees_loop_distinct)
  moreover have "map_of (fees (fees_effect formData prev)) k = None"
    if "k \<notin> members formData" for k
    using that fees_effect_keys [of formData prev] by (simp add: map_of_eq_None_iff)
  moreover have "fees_effect formData prev = prev\<lparr>fees := fees (fees_effect formData prev)\<rparr>"
    by (simp add: fees_effect_def Let_def)
  ultimately show ?thesis
    by (simp add: fees_effect_keys fees_effect_value)
qed

theorem fees_reconciled_witness:
  "''d2'' \<in> members sample_form
   \<and> map_of (fees (fees_effect sample_form sample_form)) ''d1'' = Some 1000
   \<and> map_of (fees (fees_effect sample_form sample_form)) ''d2'' = Some 0
   \<and> ''d9'' \<notin> members sample_form
   \<and> map_of (fees (fees_effect sample_form sample_form)) ''d9'' = None"
  using fees_reconciled [of sample_form sample_form "''d2''" "''d1''"]
  by (simp add: members_def sample_form_def sample_surgery_def)

subsection \<open>Reports\<close>














subsection \<open>Attachment upload path\<close>

lemma replace_whitespace_runs_id:
  "\<forall>c \<in> set cs. \<not> whitespace c \<Longrightarrow> replace_whitespace_runs cs = cs"
  by (induction cs) simp_all

lemma allowed_not_whitespace: "allowed_unit c \<Longrightarrow> \<not> whitespace c"
  by (auto simp: allowed_unit_def whitespace_def)

lemma underscore_allowed: "allowed_unit 95"
  by (simp add: allowed_unit_def)

lemma decimal_digits: "\<forall>c \<in> set (decimal n). 48 \<le> c \<and> c \<le> 57"
proof (induction n rule: decimal.induct)
  case (1 n)
  show ?case
  proof (cases "n < 10")
    case True
    then show ?thesis by (subst decimal.simps) simp
  next
    case False
    then show ?thesis using "1.IH" by (subst decimal.simps) auto
  qed
qed

text \<open>
  C9, as stated, fails in \<^verbatim>\<open>src/index.tsx\<close>: the path ends with the name of the file as it
  is, here with a space in it.
\<close>

theorem upload_path_keeps_raw_name:
  "filePath [117, 49] 1700000000000 [97, 32, 98]
     = [117, 49, 47, 49, 55, 48, 48, 48, 48, 48, 48, 48, 48, 48, 48, 48, 45, 97, 32, 98]
   \<and> \<not> allowed_unit 32"
  by (simp add: filePath_def decimal.simps allowed_unit_def)

text \<open>
  C9, amended: in \<^verbatim>\<open>src/unnamed/part_000\<close> the path of an upload is the id of the owner, a
  slash, the decimal digits of the millisecond clock, a hyphen and the sanitized name of
  the file. The sanitized name is the decomposed name without the combining marks
  U+0300 to U+036F (so the base letter of an accented letter stays), with every code unit
  outside \<^verbatim>\<open>[a-zA-Z0-9.\-_]\<close>, white space included, replaced by one underscore each; it
  contains only code units of that class. In \<^verbatim>\<open>src/index.tsx\<close> the path has the same three
  parts but ends with the name of the file as it is.
\<close>

theorem upload_path_sanitized:
  "filePath_part000 nfd ownerId now name
     = ownerId @ [47] @ decimal now @ [45] @ sanitizeFilename nfd name
   \<and> (\<forall>c \<in> set (decimal now). 48 \<le> c \<and> c \<le> 57)
   \<and> (\<forall>c \<in> set (sanitizeFilename nfd name). allowed_unit c)
   \<and> sanitizeFilename nfd name
       = map (\<lambda>c. if allowed_unit c then c else 95)
           (filter (\<lambda>c. \<not> combining_mark c) (nfd name))
   \<and> filePath ownerId now name = ownerId @ [47] @ decimal now @ [45] @ name"
proof -
  let ?mapped = "map (\<lambda>c. if allowed_unit c then c else 95)
                   (filter (\<lambda>c. \<not> combining_mark c) (nfd name))"
  have allowed: "\<forall>c \<in> set ?mapped. allowed_unit c"
    by (auto simp: underscore_allowed)
  then have "\<forall>c \<in> set ?mapped. \<not> whitespace c"
    using allowed_not_whitespace by blast
  then have same: "sanitizeFilename nfd name = ?mapped"
    unfolding sanitizeFilename_def by (rule replace_whitespace_runs_id)
  show ?thesis
    using allowed decimal_digits [of now]
    by (simp only: same filePath_part000_def filePath_def)
qed

theorem upload_path_sanitized_witness:
  "sanitizeFilename sample_nfd [114, 97, 105, 111, 32, 120, 32, 109, 227, 111, 46, 112, 110, 103]
     = [114, 97, 105, 111, 95, 120, 95, 109, 97, 111, 46, 112, 110, 103]
   \<and> filePath_part000 sample_nfd [117, 49] 1700000000000 [97, 231, 32, 98]
       = [117, 49, 47, 49, 55, 48, 48, 48, 48, 48, 48, 48, 48, 48, 48, 48, 45, 97, 99, 95, 98]"
  using upload_path_sanitized [of sample_nfd "[117, 49]" 1700000000000 "[97, 231, 32, 98]"]
    upload_path_sanitized [of sample_nfd "[]" 0
      "[114, 97, 105, 111, 32, 120, 32, 109, 227, 111, 46, 112, 110, 103]"]
  by (simp add: sample_nfd_def decimal.simps allowed_unit_def combining_mark_def)

subsection \<open>The calendar\<close>

lemma div_step:
  "(x + 1) div k = x div k + (if (x + 1) mod k = 0 then 1 else 0)" if "1 < k" for x k :: int
proof -
  have "(x + 1) div k = x div k + 1 div k + (x mod k + 1 mod k) div k"
    by (rule div_add1_eq)
  moreover have "1 div k = 0" "1 mod k = 1" using that by simp_all
  moreover have "0 \<le> x mod k" "x mod k < k" using that by simp_all
  moreover have "(x + 1) mod k = (x mod k + 1) mod k" by (simp add: mod_add_left_eq)
  ultimately show ?thesis
    by (cases "x mod k + 1 = k") (auto simp: div_pos_pos_trivial mod_pos_pos_trivial)
qed

lemma mod_shift: "(y - k * c) mod k = y mod k" for y k c :: int
proof -
  have "y - k * c = y + k * (- c)" by simp
  then show ?thesis by (simp only: mod_mult_self2)
qed

lemma DayFromYear_Suc: "DayFromYear (y + 1) = DayFromYear y + DaysInYear y"
proof -
  have a: "(y + 1 - 1969) div 4 = (y - 1969) div 4 + (if y mod 4 = 0 then 1 else 0)"
    using div_step [of 4 "y - 1969"] mod_shift [of y 4 492] by (simp add: algebra_simps)
  have b: "(y + 1 - 1901) div 100 = (y - 1901) div 100 + (if y mod 100 = 0 then 1 else 0)"
    using div_step [of 100 "y - 1901"] mod_shift [of y 100 19] by (simp add: algebra_simps)
  have c: "(y + 1 - 1601) div 400 = (y - 1601) div 400 + (if y mod 400 = 0 then 1 else 0)"
    using div_step [of 400 "y - 1601"] mod_shift [of y 400 4] by (simp add: algebra_simps)
  have d: "y mod 4 = 0" if "y mod 100 = 0"
    using that mod_mod_cancel [of 4 100 y] by simp
  have e: "y mod 100 = 0" if "y mod 400 = 0"
    using that mod_mod_cancel [of 100 400 y] by simp
  show ?thesis
    unfolding DayFromYear_def DaysInYear_def a b c using d e by auto
qed


lemma DaysInYear_bounds: "365 \<le> DaysInYear y" "DaysInYear y \<le> 366"
  by (simp_all add: DaysInYear_def)

lemma DayFromYear_less: "DayFromYear y < DayFromYear (y + 1)"
  using DayFromYear_Suc [of y] DaysInYear_bounds(1) [of y] by simp

lemma DayFromYear_mono_nat: "DayFromYear y \<le> DayFromYear (y + int n)"
proof (induction n)
  case 0
  show ?case by simp
next
  case (Suc n)
  have "DayFromYear (y + int n) < DayFromYear (y + int n + 1)" by (rule DayFromYear_less)
  moreover have "y + int (Suc n) = y + int n + 1" by simp
  ultimately show ?case using Suc by (simp only:)
qed

lemma DayFromYear_mono: "y \<le> z \<Longrightarrow> DayFromYear y \<le> DayFromYear z"
  using DayFromYear_mono_nat [of y "nat (z - y)"] by simp

lemma DayFromYear_cycles:
  assumes "0 \<le> b" "b \<le> 3" "0 \<le> c" "c \<le> 24" "0 \<le> n" "n \<le> 3"
  shows "DayFromYear (1601 + 400 * a + 100 * b + 4 * c + n)
           = 146097 * a + 36524 * b + 1461 * c + 365 * n - 134774"
proof -
  let ?y = "1601 + 400 * a + 100 * b + 4 * c + n"
  have "(?y - 1969) div 4 = 100 * a + 25 * b + c - 92"
    by (rule int_div_pos_eq [where r = n]) (use assms in simp_all)
  moreover have "(?y - 1901) div 100 = 4 * a + b - 3"
    by (rule int_div_pos_eq [where r = "4 * c + n"]) (use assms in simp_all)
  moreover have "(?y - 1601) div 400 = a"
    by (rule int_div_pos_eq [where r = "100 * b + 4 * c + n"]) (use assms in simp_all)
  ultimately show ?thesis
    unfolding DayFromYear_def by simp
qed


lemma YearFromDay_bounds:
  "DayFromYear (YearFromDay d) \<le> d \<and> d < DayFromYear (YearFromDay d + 1)"
proof -
  define e where "e = d + 134774"
  define a where "a = e div 146097"
  define r where "r = e mod 146097"
  define b0 where "b0 = r div 36524"
  define r1 where "r1 = r mod 36524"
  define b where "b = min b0 3"
  define r2 where "r2 = r - b * 36524"
  define c where "c = r2 div 1461"
  define r3 where "r3 = r2 mod 1461"
  define n0 where "n0 = r3 div 365"
  define r4 where "r4 = r3 mod 365"
  define n where "n = min n0 3"
  have yr: "YearFromDay d = 1601 + 400 * a + 100 * b + 4 * c + n"
    unfolding n_def n0_def r3_def c_def r2_def b_def b0_def r_def a_def e_def YearFromDay_def Let_def
    by (rule refl)
  have e: "e = 146097 * a + r" "0 \<le> r" "r < 146097"
    by (simp_all add: a_def r_def)
  have r: "r = 36524 * b0 + r1" "0 \<le> r1" "r1 < 36524"
    by (simp_all add: b0_def r1_def)
  have b0: "0 \<le> b0" "b0 \<le> 4"
    using e zdiv_mono1 [of r 146096 36524] by (simp_all add: b0_def pos_imp_zdiv_nonneg_iff)
  have b: "0 \<le> b" "b \<le> 3" "b0 \<le> 3 \<Longrightarrow> b = b0" "b0 = 4 \<Longrightarrow> b = 3"
    using b0 by (simp_all add: b_def)
  have r2_bounds: "0 \<le> r2 \<and> r2 \<le> 36524 \<and> (b0 \<le> 3 \<longrightarrow> r2 < 36524)"
  proof (cases "b0 \<le> 3")
    case True
    then have "r2 = r1" using r b by (simp add: r2_def)
    with r True show ?thesis by simp
  next
    case False
    then have "b0 = 4" using b0 by simp
    then have "b = 3" using b by simp
    have "r = 146096 + r1" using r \<open>b0 = 4\<close> by simp
    then have "r1 = 0" using e r by simp
    then have "r2 = 36524" using \<open>r = 146096 + r1\<close> \<open>b = 3\<close> by (simp add: r2_def)
    with False show ?thesis by simp
  qed
  have r2: "r2 = 1461 * c + r3" "0 \<le> r3" "r3 < 1461"
    by (simp_all add: c_def r3_def)
  have c: "0 \<le> c" "c \<le> 24"
    using r2_bounds zdiv_mono1 [of r2 36524 1461] by (simp_all add: c_def pos_imp_zdiv_nonneg_iff)
  have r3: "r3 = 365 * n0 + r4" "0 \<le> r4" "r4 < 365"
    by (simp_all add: n0_def r4_def)
  have n0: "0 \<le> n0" "n0 \<le> 4"
    using r2 zdiv_mono1 [of r3 1460 365] by (simp_all add: n0_def pos_imp_zdiv_nonneg_iff)
  have n: "0 \<le> n" "n \<le> 3" "n0 \<le> 3 \<Longrightarrow> n = n0" "n0 = 4 \<Longrightarrow> n = 3"
    using n0 by (simp_all add: n_def)
  have start: "DayFromYear (YearFromDay d) = 146097 * a + 36524 * b + 1461 * c + 365 * n - 134774"
    unfolding yr using b c n by (intro DayFromYear_cycles) simp_all
  have d: "d = 146097 * a + 36524 * b + 1461 * c + r3 - 134774"
    using e r2 by (simp add: e_def r2_def)
  have low: "DayFromYear (YearFromDay d) \<le> d"
  proof (cases "n0 \<le> 3")
    case True
    then show ?thesis using start d r3 n by simp
  next
    case False
    then have "n0 = 4" using n0 by simp
    then show ?thesis using start d r3 n by simp
  qed
  have high: "d < DayFromYear (YearFromDay d + 1)"
  proof -
    have "n < 3 \<or> n = 3" using n by linarith
    moreover have "c < 24 \<or> c = 24" using c by linarith
    moreover have "b < 3 \<or> b = 3" using b by linarith
    ultimately consider (single) "n < 3" | (four) "n = 3" "c < 24"
      | (century) "n = 3" "c = 24" "b < 3" | (cycle) "n = 3" "c = 24" "b = 3"
      by blast
    then show ?thesis
    proof cases
      case single
      then have n_eq: "n = n0" using n n0 by (simp add: n_def)
      have "YearFromDay d + 1 = 1601 + 400 * a + 100 * b + 4 * c + (n + 1)"
        by (simp add: yr)
      also have "DayFromYear \<dots> = 146097 * a + 36524 * b + 1461 * c + 365 * (n + 1) - 134774"
        using b c n single by (intro DayFromYear_cycles) simp_all
      finally show ?thesis using d r3 n_eq by simp
    next
      case four
      have "YearFromDay d + 1 = 1601 + 400 * a + 100 * b + 4 * (c + 1) + 0"
        by (simp add: yr four)
      also have "DayFromYear \<dots> = 146097 * a + 36524 * b + 1461 * (c + 1) + 365 * 0 - 134774"
        using b c four by (intro DayFromYear_cycles) simp_all
      finally show ?thesis using d r2 by simp
    next
      case century
      then have b_eq: "b = b0" using b0 by (simp add: b_def split: if_splits)
      then have "b0 \<le> 3" using century by simp
      then have "r2 < 36524" using r2_bounds by simp
      have "YearFromDay d + 1 = 1601 + 400 * a + 100 * (b + 1) + 4 * 0 + 0"
        by (simp add: yr century)
      also have "DayFromYear \<dots> = 146097 * a + 36524 * (b + 1) + 1461 * 0 + 365 * 0 - 134774"
        using b century by (intro DayFromYear_cycles) simp_all
      finally show ?thesis using d r2 \<open>r2 < 36524\<close> by simp
    next
      case cycle
      have "YearFromDay d + 1 = 1601 + 400 * (a + 1) + 100 * 0 + 4 * 0 + 0"
        by (simp add: yr cycle)
      also have "DayFromYear \<dots> = 146097 * (a + 1) + 36524 * 0 + 1461 * 0 + 365 * 0 - 134774"
        by (intro DayFromYear_cycles) simp_all
      finally show ?thesis using e r2 cycle by (simp add: e_def r2_def)
    qed
  qed
  from low high show ?thesis ..
qed

lemma YearFromDay_unique:
  assumes "DayFromYear y \<le> d" "d < DayFromYear (y + 1)"
  shows "YearFromDay d = y"
proof (rule ccontr)
  assume neq: "YearFromDay d \<noteq> y"
  have bounds: "DayFromYear (YearFromDay d) \<le> d" "d < DayFromYear (YearFromDay d + 1)"
    using YearFromDay_bounds [of d] by simp_all
  show False
  proof (cases "YearFromDay d < y")
    case True
    then have "DayFromYear (YearFromDay d + 1) \<le> DayFromYear y"
      by (intro DayFromYear_mono) simp
    with assms bounds show False by simp
  next
    case False
    with neq have "DayFromYear (y + 1) \<le> DayFromYear (YearFromDay d)"
      by (intro DayFromYear_mono) simp
    with assms bounds show False by simp
  qed
qed

lemma DayWithinYear_bounds:
  "0 \<le> DayWithinYear d" "DayWithinYear d < DaysInYear (YearFromDay d)"
  using YearFromDay_bounds [of d] DayFromYear_Suc [of "YearFromDay d"]
  by (simp_all add: DayWithinYear_def)

lemma YearFromDay_in_year:
  "0 \<le> k \<Longrightarrow> k < DaysInYear y \<Longrightarrow> YearFromDay (DayFromYear y + k) = y"
  by (rule YearFromDay_unique) (simp_all add: DayFromYear_Suc)

lemma month_cases:
  assumes "0 \<le> m" "m < 12"
  obtains "m = 0" | "m = 1" | "m = 2" | "m = 3" | "m = 4" | "m = 5" | "m = 6" | "m = 7"
    | "m = 8" | "m = 9" | "m = 10" | "m = (11::int)"
proof -
  have step: "m = k \<or> k + 1 \<le> m" if "k \<le> m" for k
    using that by linarith
  have d0: "m = 0 \<or> 1 \<le> m" using step [of 0] assms(1) by simp
  have d1: "m = 0 \<or> m = 1 \<or> 2 \<le> m"
    using d0 step [of 1] by auto
  have d2: "m = 0 \<or> m = 1 \<or> m = 2 \<or> 3 \<le> m"
    using d1 step [of 2] by auto
  have d3: "m = 0 \<or> m = 1 \<or> m = 2 \<or> m = 3 \<or> 4 \<le> m"
    using d2 step [of 3] by auto
  have d4: "m = 0 \<or> m = 1 \<or> m = 2 \<or> m = 3 \<or> m = 4 \<or> 5 \<le> m"
    using d3 step [of 4] by auto
  have d5: "m = 0 \<or> m = 1 \<or> m = 2 \<or> m = 3 \<or> m = 4 \<or> m = 5 \<or> 6 \<le> m"
    using d4 step [of 5] by auto
  have d6: "m = 0 \<or> m = 1 \<or> m = 2 \<or> m = 3 \<or> m = 4 \<or> m = 5 \<or> m = 6 \<or> 7 \<le> m"
    using d5 step [of 6] by auto
  have d7: "m = 0 \<or> m = 1 \<or> m = 2 \<or> m = 3 \<or> m = 4 \<or> m = 5 \<or> m = 6 \<or> m = 7 \<or> 8 \<le> m"
    using d6 step [of 7] by auto
  have d8: "m = 0 \<or> m = 1 \<or> m = 2 \<or> m = 3 \<or> m = 4 \<or> m = 5 \<or> m = 6 \<or> m = 7 \<or> m = 8 \<or> 9 \<le> m"
    using d7 step [of 8] by auto
  have d9: "m = 0 \<or> m = 1 \<or> m = 2 \<or> m = 3 \<or> m = 4 \<or> m = 5 \<or> m = 6 \<or> m = 7 \<or> m = 8 \<or> m = 9 \<or> 10 \<le> m"
    using d8 step [of 9] by auto
  have d10: "m = 0 \<or> m = 1 \<or> m = 2 \<or> m = 3 \<or> m = 4 \<or> m = 5 \<or> m = 6 \<or> m = 7 \<or> m = 8 \<or> m = 9 \<or> m = 10 \<or> 11 \<le> m"
    using d9 step [of 10] by auto
  have "m = 0 \<or> m = 1 \<or> m = 2 \<or> m = 3 \<or> m = 4 \<or> m = 5 \<or> m = 6 \<or> m = 7 \<or> m = 8 \<or> m = 9 \<or> m = 10 \<or> m = 11"
    using d10 step [of 11] assms(2) by auto
  with that show thesis by blast
qed

lemma month_of_year_day_range:
  "0 \<le> month_of_year_day n leap" "month_of_year_day n leap < 12"
  by (simp_all add: month_of_year_day_def Let_def)

lemma month_table:
  assumes "month_start m leap \<le> n" "n < month_start m leap + month_length m leap"
    "0 \<le> m" "m < 12"
  shows "month_of_year_day n leap = m"
  using assms(3,4)
proof (cases rule: month_cases)
  case 1
  then show ?thesis
    using assms(1,2)
    by (cases leap) (simp_all add: month_start_def month_length_def month_of_year_day_def)
next
  case 2
  then show ?thesis
    using assms(1,2)
    by (cases leap) (simp_all add: month_start_def month_length_def month_of_year_day_def)
next
  case 3
  then show ?thesis
    using assms(1,2)
    by (cases leap) (simp_all add: month_start_def month_length_def month_of_year_day_def)
next
  case 4
  then show ?thesis
    using assms(1,2)
    by (cases leap) (simp_all add: month_start_def month_length_def month_of_year_day_def)
next
  case 5
  then show ?thesis
    using assms(1,2)
    by (cases leap) (simp_all add: month_start_def month_length_def month_of_year_day_def)
next
  case 6
  then show ?thesis
    using assms(1,2)
    by (cases leap) (simp_all add: month_start_def month_length_def month_of_year_day_def)
next
  case 7
  then show ?thesis
    using assms(1,2)
    by (cases leap) (simp_all add: month_start_def month_length_def month_of_year_day_def)
next
  case 8
  then show ?thesis
    using assms(1,2)
    by (cases leap) (simp_all add: month_start_def month_length_def month_of_year_day_def)
next
  case 9
  then show ?thesis
    using assms(1,2)
    by (cases leap) (simp_all add: month_start_def month_length_def month_of_year_day_def)
next
  case 10
  then show ?thesis
    using assms(1,2)
    by (cases leap) (simp_all add: month_start_def month_length_def month_of_year_day_def)
next
  case 11
  then show ?thesis
    using assms(1,2)
    by (cases leap) (simp_all add: month_start_def month_length_def month_of_year_day_def)
next
  case 12
  then show ?thesis
    using assms(1,2)
    by (cases leap) (simp_all add: month_start_def month_length_def month_of_year_day_def)
qed

lemma month_start_Suc:
  assumes "0 \<le> k" "k < 11"
  shows "month_start (k + 1) leap = month_start k leap + month_length k leap"
proof -
  from assms have "0 \<le> k" "k < 12" by simp_all
  then show ?thesis
    by (cases rule: month_cases) (use assms in \<open>simp_all add: month_start_def month_length_def\<close>)
qed

lemma month_of_year_day_start:
  assumes "0 \<le> n" "n < (if leap then 366 else 365)"
  shows "month_start (month_of_year_day n leap) leap \<le> n
         \<and> n < month_start (month_of_year_day n leap) leap
                 + month_length (month_of_year_day n leap) leap"
    (is "?P")
proof -
  have in_month: ?P
    if "month_start m leap \<le> n" "n < month_start m leap + month_length m leap"
      "0 \<le> m" "m < 12" for m
    using that month_table [OF that] by simp
  have last: "month_start 11 leap + month_length 11 leap = (if leap then 366 else 365)"
    by (simp add: month_start_def month_length_def)
  have from11: ?P if "month_start 11 leap \<le> n"
    using that assms(2) last by (intro in_month [of 11]) simp_all
  have from10: ?P if "month_start 10 leap \<le> n"
  proof (cases "month_start 11 leap \<le> n")
    case True
    then show ?thesis by (rule from11)
  next
    case False
    then have "n < month_start 10 leap + month_length 10 leap"
      using month_start_Suc [of 10 leap] by simp
    with that show ?thesis by (intro in_month [of 10]) simp_all
  qed
  have from9: ?P if "month_start 9 leap \<le> n"
  proof (cases "month_start 10 leap \<le> n")
    case True
    then show ?thesis by (rule from10)
  next
    case False
    then have "n < month_start 9 leap + month_length 9 leap"
      using month_start_Suc [of 9 leap] by simp
    with that show ?thesis by (intro in_month [of 9]) simp_all
  qed
  have from8: ?P if "month_start 8 leap \<le> n"
  proof (cases "month_start 9 leap \<le> n")
    case True
    then show ?thesis by (rule from9)
  next
    case False
    then have "n < month_start 8 leap + month_length 8 leap"
      using month_start_Suc [of 8 leap] by simp
    with that show ?thesis by (intro in_month [of 8]) simp_all
  qed
  have from7: ?P if "month_start 7 leap \<le> n"
  proof (cases "month_start 8 leap \<le> n")
    case True
    then show ?thesis by (rule from8)
  next
    case False
    then have "n < month_start 7 leap + month_length 7 leap"
      using month_start_Suc [of 7 leap] by simp
    with that show ?thesis by (intro in_month [of 7]) simp_all
  qed
  have from6: ?P if "month_start 6 leap \<le> n"
  proof (cases "month_start 7 leap \<le> n")
    case True
    then show ?thesis by (rule from7)
  next
    case False
    then have "n < month_start 6 leap + month_length 6 leap"
      using month_start_Suc [of 6 leap] by simp
    with that show ?thesis by (intro in_month [of 6]) simp_all
  qed
  have from5: ?P if "month_start 5 leap \<le> n"
  proof (cases "month_start 6 leap \<le> n")
    case True
    then show ?thesis by (rule from6)
  next
    case False
    then have "n < month_start 5 leap + month_length 5 leap"
      using month_start_Suc [of 5 leap] by simp
    with that show ?thesis by (intro in_month [of 5]) simp_all
  qed
  have from4: ?P if "month_start 4 leap \<le> n"
  proof (cases "month_start 5 leap \<le> n")
    case True
    then show ?thesis by (rule from5)
  next
    case False
    then have "n < month_start 4 leap + month_length 4 leap"
      using month_start_Suc [of 4 leap] by simp
    with that show ?thesis by (intro in_month [of 4]) simp_all
  qed
  have from3: ?P if "month_start 3 leap \<le> n"
  proof (cases "month_start 4 leap \<le> n")
    case True
    then show ?thesis by (rule from4)
  next
    case False
    then have "n < month_start 3 leap + month_length 3 leap"
      using month_start_Suc [of 3 leap] by simp
    with that show ?thesis by (intro in_month [of 3]) simp_all
  qed
  have from2: ?P if "month_start 2 leap \<le> n"
  proof (cases "month_start 3 leap \<le> n")
    case True
    then show ?thesis by (rule from3)
  next
    case False
    then have "n < month_start 2 leap + month_length 2 leap"
      using month_start_Suc [of 2 leap] by simp
    with that show ?thesis by (intro in_month [of 2]) simp_all
  qed
  have from1: ?P if "month_start 1 leap \<le> n"
  proof (cases "month_start 2 leap \<le> n")
    case True
    then show ?thesis by (rule from2)
  next
    case False
    then have "n < month_start 1 leap + month_length 1 leap"
      using month_start_Suc [of 1 leap] by simp
    with that show ?thesis by (intro in_month [of 1]) simp_all
  qed
  have from0: ?P if "month_start 0 leap \<le> n"
  proof (cases "month_start 1 leap \<le> n")
    case True
    then show ?thesis by (rule from1)
  next
    case False
    then have "n < month_start 0 leap + month_length 0 leap"
      using month_start_Suc [of 0 leap] by simp
    with that show ?thesis by (intro in_month [of 0]) simp_all
  qed
  show ?thesis using assms(1) by (intro from0) (simp add: month_start_def)
qed

lemma Day_MakeDate:
  assumes "0 \<le> time" "time < msPerDay"
  shows "Day (MakeDate day time) = day"
  unfolding Day_def MakeDate_def
  by (rule int_div_pos_eq [where r = time]) (use assms in \<open>simp_all add: msPerDay_def\<close>)

lemma MakeTime_range:
  assumes "0 \<le> h" "h < 24" "0 \<le> m" "m < 60" "0 \<le> s" "s < 60" "0 \<le> milli" "milli < 1000"
  shows "0 \<le> MakeTime h m s milli" "MakeTime h m s milli < msPerDay"
  using assms by (simp_all add: MakeTime_def msPerDay_def)

lemma time_fields_range:
  "0 \<le> HourFromTime t" "HourFromTime t < 24" "0 \<le> MinFromTime t" "MinFromTime t < 60"
  "0 \<le> SecFromTime t" "SecFromTime t < 60" "0 \<le> msFromTime t" "msFromTime t < 1000"
  by (simp_all add: HourFromTime_def MinFromTime_def SecFromTime_def msFromTime_def)

lemma time_fields_MakeDate:
  assumes "0 \<le> h" "h < 24" "0 \<le> m" "m < 60" "0 \<le> s" "s < 60" "0 \<le> milli" "milli < 1000"
  shows "HourFromTime (MakeDate day (MakeTime h m s milli)) = h"
    and "MinFromTime (MakeDate day (MakeTime h m s milli)) = m"
    and "SecFromTime (MakeDate day (MakeTime h m s milli)) = s"
    and "msFromTime (MakeDate day (MakeTime h m s milli)) = milli"
proof -
  let ?t = "MakeDate day (MakeTime h m s milli)"
  have "?t div 3600000 = day * 24 + h"
    by (rule int_div_pos_eq [where r = "m * 60000 + s * 1000 + milli"])
      (use assms in \<open>simp_all add: MakeDate_def MakeTime_def msPerDay_def\<close>)
  moreover have "(day * 24 + h) mod 24 = h"
    by (rule int_mod_pos_eq [where q = day]) (use assms in simp_all)
  ultimately show "HourFromTime ?t = h" by (simp add: HourFromTime_def)
  have "?t div 60000 = (day * 24 + h) * 60 + m"
    by (rule int_div_pos_eq [where r = "s * 1000 + milli"])
      (use assms in \<open>simp_all add: MakeDate_def MakeTime_def msPerDay_def\<close>)
  moreover have "((day * 24 + h) * 60 + m) mod 60 = m"
    by (rule int_mod_pos_eq [where q = "day * 24 + h"]) (use assms in simp_all)
  ultimately show "MinFromTime ?t = m" by (simp add: MinFromTime_def)
  have "?t div 1000 = ((day * 24 + h) * 60 + m) * 60 + s"
    by (rule int_div_pos_eq [where r = milli])
      (use assms in \<open>simp_all add: MakeDate_def MakeTime_def msPerDay_def\<close>)
  moreover have "(((day * 24 + h) * 60 + m) * 60 + s) mod 60 = s"
    by (rule int_mod_pos_eq [where q = "(day * 24 + h) * 60 + m"]) (use assms in simp_all)
  ultimately show "SecFromTime ?t = s" by (simp add: SecFromTime_def)
  show "msFromTime ?t = milli"
    unfolding msFromTime_def
    by (rule int_mod_pos_eq [where q = "((day * 24 + h) * 60 + m) * 60 + s"])
      (use assms in \<open>simp_all add: MakeDate_def MakeTime_def msPerDay_def\<close>)
qed

lemma month_length_range: "28 \<le> month_length m leap" "month_length m leap \<le> 31"
  by (simp_all add: month_length_def)

lemma MonthFromDay_range: "0 \<le> MonthFromDay d" "MonthFromDay d < 12"
  by (simp_all add: MonthFromDay_def month_of_year_day_range)

lemma leap_days: "(if DaysInYear y = 366 then 366 else 365) = DaysInYear y"
  by (simp add: DaysInYear_def)

lemma DateFromDay_range:
  "1 \<le> DateFromDay d" "DateFromDay d \<le> days_in_month (YearFromDay d) (MonthFromDay d)"
proof -
  have "DayWithinYear d < (if InLeapYear d then 366 else 365)"
    using DayWithinYear_bounds(2) [of d] leap_days [of "YearFromDay d"]
    by (simp add: InLeapYear_def)
  from month_of_year_day_start [OF DayWithinYear_bounds(1) this]
  show "1 \<le> DateFromDay d" "DateFromDay d \<le> days_in_month (YearFromDay d) (MonthFromDay d)"
    by (simp_all add: DateFromDay_def MonthFromDay_def days_in_month_def InLeapYear_def)
qed

text \<open>A date of the calendar and its day number determine each other.\<close>

lemma MakeDay_in_year:
  assumes "0 \<le> m" "m < 12"
  shows "MakeDay y m dt = DayFromYear y + month_start m (DaysInYear y = 366) + dt - 1"
  using assms by (simp add: MakeDay_def Let_def div_pos_pos_trivial mod_pos_pos_trivial)

lemma MakeDay_fields:
  "MakeDay (YearFromDay d) (MonthFromDay d) (DateFromDay d) = d"
  using MonthFromDay_range [of d]
  by (simp add: MakeDay_in_year DateFromDay_def InLeapYear_def DayWithinYear_def)

lemma fields_MakeDay:
  assumes "0 \<le> m" "m < 12" "1 \<le> dt" "dt \<le> days_in_month y m"
  shows "YearFromDay (MakeDay y m dt) = y"
    and "MonthFromDay (MakeDay y m dt) = m"
    and "DateFromDay (MakeDay y m dt) = dt"
proof -
  let ?leap = "DaysInYear y = 366"
  let ?k = "month_start m ?leap + dt - 1"
  have lo: "month_start m ?leap \<le> ?k" and hi: "?k < month_start m ?leap + month_length m ?leap"
    using assms by (simp_all add: days_in_month_def)
  have "0 \<le> month_start m ?leap"
    by (simp add: month_start_def)
  then have k0: "0 \<le> ?k" using lo by simp
  have "month_start m ?leap + month_length m ?leap \<le> DaysInYear y"
    using assms(1,2)
    by (cases rule: month_cases) (simp_all add: month_start_def month_length_def DaysInYear_def)
  then have k1: "?k < DaysInYear y" using hi by simp
  have day: "MakeDay y m dt = DayFromYear y + ?k"
    using assms(1,2) by (simp add: MakeDay_in_year)
  show year: "YearFromDay (MakeDay y m dt) = y"
    unfolding day using k0 k1 by (rule YearFromDay_in_year)
  have within: "DayWithinYear (MakeDay y m dt) = ?k"
    unfolding DayWithinYear_def year by (simp add: day)
  have leap: "InLeapYear (MakeDay y m dt) = ?leap"
    by (simp add: InLeapYear_def year)
  show month: "MonthFromDay (MakeDay y m dt) = m"
    unfolding MonthFromDay_def within leap using lo hi assms(1,2) by (rule month_table)
  show "DateFromDay (MakeDay y m dt) = dt"
    unfolding DateFromDay_def month within leap by simp
qed

lemma MakeDay_date_0:
  assumes "0 \<le> m" "m < 12"
  shows "MakeDay y (m + 1) 0 = MakeDay y m (days_in_month y m)"
proof (cases "m = 11")
  case True
  have "MakeDay y 12 0 = DayFromYear (y + 1) - 1"
    by (simp add: MakeDay_def Let_def month_start_def)
  also have "\<dots> = DayFromYear y + DaysInYear y - 1"
    by (simp add: DayFromYear_Suc)
  also have "\<dots> = MakeDay y 11 (days_in_month y 11)"
    by (simp add: MakeDay_in_year month_start_def days_in_month_def month_length_def
        DaysInYear_def)
  finally show ?thesis using True by simp
next
  case False
  with assms have m: "0 \<le> m" "m < 11" by simp_all
  then have "0 \<le> m + 1" "m + 1 < 12" by simp_all
  then have "MakeDay y (m + 1) 0 = DayFromYear y + month_start (m + 1) (DaysInYear y = 366) - 1"
    by (simp add: MakeDay_in_year)
  also have "\<dots> = MakeDay y m (days_in_month y m)"
    using m assms by (simp add: MakeDay_in_year month_start_Suc days_in_month_def)
  finally show ?thesis .
qed

lemma MakeTime_fields:
  "MakeTime (HourFromTime t) (MinFromTime t) (SecFromTime t) (msFromTime t) = TimeWithinDay t"
proof -
  define q1 where "q1 = t div 1000"
  define q2 where "q2 = q1 div 60"
  define q3 where "q3 = q2 div 60"
  define q4 where "q4 = q3 div 24"
  have t: "t = 1000 * q1 + t mod 1000" by (simp add: q1_def)
  have q1: "q1 = 60 * q2 + q1 mod 60" by (simp add: q2_def)
  have q2: "q2 = 60 * q3 + q2 mod 60" by (simp add: q3_def)
  have q3: "q3 = 24 * q4 + q3 mod 24" by (simp add: q4_def)
  have d2: "t div 60000 = q2"
    using zdiv_zmult2_eq [of 60 t 1000] by (simp add: q1_def q2_def)
  have d3: "t div 3600000 = q3"
    using zdiv_zmult2_eq [of 60 t 60000] d2 by (simp add: q3_def)
  have fields: "HourFromTime t = q3 mod 24" "MinFromTime t = q2 mod 60"
    "SecFromTime t = q1 mod 60" "msFromTime t = t mod 1000"
    by (simp_all add: HourFromTime_def MinFromTime_def SecFromTime_def msFromTime_def d2 d3 q1_def)
  have r: "0 \<le> t mod 1000" "t mod 1000 < 1000" "0 \<le> q1 mod 60" "q1 mod 60 < 60"
    "0 \<le> q2 mod 60" "q2 mod 60 < 60" "0 \<le> q3 mod 24" "q3 mod 24 < 24"
    by simp_all
  have "t = 86400000 * q4
            + (q3 mod 24 * 3600000 + q2 mod 60 * 60000 + q1 mod 60 * 1000 + t mod 1000)"
    using t q1 q2 q3 by linarith
  then have "t mod 86400000
      = q3 mod 24 * 3600000 + q2 mod 60 * 60000 + q1 mod 60 * 1000 + t mod 1000"
    using r by (intro int_mod_pos_eq [where q = q4]) simp_all
  then show ?thesis
    by (simp add: MakeTime_def TimeWithinDay_def msPerDay_def fields)
qed

text \<open>Zones: a local time that exists is read back, and with a fixed offset all exist.\<close>

lemma LocalTime_UTC: "local_time_exists tz x \<Longrightarrow> LocalTime tz (UTC tz x) = x"
  by (simp add: local_time_exists_def)

lemma fixed_zone_simps:
  "LocalTime (fixed_zone m) t = t + m * 60000" "UTC (fixed_zone m) x = x - m * 60000"
  by (simp_all add: LocalTime_def UTC_def fixed_zone_def)

lemma local_time_exists_fixed: "local_time_exists (fixed_zone m) x"
  by (simp add: local_time_exists_def fixed_zone_simps)

text \<open>What the getters read in a date that a constructor or a parser has made.\<close>

lemma Day_new_Date:
  assumes "local_time_exists tz (MakeDate (MakeDay (MakeFullYear y) m dt) 0)"
  shows "Day (LocalTime tz (new_Date tz y m dt)) = MakeDay (MakeFullYear y) m dt"
  using assms by (simp add: new_Date_def LocalTime_UTC Day_MakeDate MakeTime_def msPerDay_def)

lemma local_fields:
  assumes "0 \<le> h" "h < 24" "0 \<le> m" "m < 60" "0 \<le> s" "s < 60" "0 \<le> milli" "milli < 1000"
    and "local_time_exists tz (MakeDate day (MakeTime h m s milli))"
  shows "Day (LocalTime tz (UTC tz (MakeDate day (MakeTime h m s milli)))) = day"
    and "getHours tz (UTC tz (MakeDate day (MakeTime h m s milli))) = h"
    and "getMinutes tz (UTC tz (MakeDate day (MakeTime h m s milli))) = m"
    and "getSeconds tz (UTC tz (MakeDate day (MakeTime h m s milli))) = s"
    and "msFromTime (LocalTime tz (UTC tz (MakeDate day (MakeTime h m s milli)))) = milli"
  using assms(1-8) MakeTime_range [OF assms(1-8)]
  by (simp_all add: LocalTime_UTC [OF assms(9)] Day_MakeDate getHours_def getMinutes_def
      getSeconds_def time_fields_MakeDate)

lemma getters_range:
  "0 \<le> getHours tz t" "getHours tz t < 24" "0 \<le> getMinutes tz t" "getMinutes tz t < 60"
  "0 \<le> getSeconds tz t" "getSeconds tz t < 60"
  by (simp_all add: getHours_def getMinutes_def getSeconds_def time_fields_range)

text \<open>
  The text that the template literal writes for a target in a year from 1000 to 9999 is in
  the date-time format, and it denotes the local day of the target at the hour and minute
  of the old timestamp.
\<close>

lemma template_in_range:
  "fields_in_range (getFullYear tz newDate) (getMonth tz newDate + 1) (getDate tz newDate)
     (getHours tz t) (getMinutes tz t) 0"
  using MonthFromDay_range [of "Day (LocalTime tz newDate)"]
    DateFromDay_range [of "Day (LocalTime tz newDate)"] getters_range [of tz t]
  by (simp add: fields_in_range_def getFullYear_def getMonth_def getDate_def)

lemma newDateTimeString_Some:
  assumes "Date_parse tz old = Some t"
  shows "newDateTimeString tz old newDate
           = Local_minutes (getFullYear tz newDate) (getMonth tz newDate + 1)
               (getDate tz newDate) (getHours tz t) (getMinutes tz t)"
  using assms by (simp add: newDateTimeString_def)

lemma parse_newDateTimeString:
  assumes "Date_parse tz old = Some t"
    "1000 \<le> getFullYear tz newDate" "getFullYear tz newDate \<le> 9999"
  shows "Date_parse tz (newDateTimeString tz old newDate)
           = Some (UTC tz (new_local_minutes tz t newDate))"
proof -
  have "MakeDay (getFullYear tz newDate) (getMonth tz newDate) (getDate tz newDate)
      = Day (LocalTime tz newDate)"
    by (simp add: getFullYear_def getMonth_def getDate_def MakeDay_fields)
  then show ?thesis
    using assms(2,3) template_in_range [of tz newDate t]
    by (simp add: newDateTimeString_Some [OF assms(1)] new_local_minutes_def)
qed

lemma fields_new_local_minutes:
  assumes "local_time_exists tz (new_local_minutes tz t newDate)"
  shows "Day (LocalTime tz (UTC tz (new_local_minutes tz t newDate))) = Day (LocalTime tz newDate)"
    and "getHours tz (UTC tz (new_local_minutes tz t newDate)) = getHours tz t"
    and "getMinutes tz (UTC tz (new_local_minutes tz t newDate)) = getMinutes tz t"
    and "getSeconds tz (UTC tz (new_local_minutes tz t newDate)) = 0"
  using assms unfolding new_local_minutes_def
  by (simp_all add: local_fields getters_range)

lemma newDateTimeUTC_Some:
  assumes "Date_parse tz old = Some t"
  shows "newDateTimeUTC tz old newDate
           = Inr (ISO_instant (UTC tz (new_local_seconds tz t newDate)))"
  using assms
  by (simp add: newDateTimeUTC_def Let_def toISOString_def setHours_def new_local_seconds_def)

lemma fields_new_local_seconds:
  assumes "local_time_exists tz (new_local_seconds tz t newDate)"
  shows "Day (LocalTime tz (UTC tz (new_local_seconds tz t newDate))) = Day (LocalTime tz newDate)"
    and "getHours tz (UTC tz (new_local_seconds tz t newDate)) = getHours tz t"
    and "getMinutes tz (UTC tz (new_local_seconds tz t newDate)) = getMinutes tz t"
    and "getSeconds tz (UTC tz (new_local_seconds tz t newDate)) = getSeconds tz t"
  using assms unfolding new_local_seconds_def
  by (simp_all add: local_fields getters_range time_fields_range)

text \<open>
  The second drag of a surgery to the same date: the written timestamp is read back with
  the hour and minute with which it was written, when it can be read and its local time
  exists.
\<close>

lemma newDateTimeString_idem:
  assumes "Date_parse tz old = Some t"
    "1000 \<le> getFullYear tz newDate" "getFullYear tz newDate \<le> 9999"
    "local_time_exists tz (new_local_minutes tz t newDate)"
  shows "newDateTimeString tz (newDateTimeString tz old newDate) newDate
           = newDateTimeString tz old newDate"
  using newDateTimeString_Some [OF parse_newDateTimeString [OF assms(1-3)], of newDate]
  by (simp add: fields_new_local_minutes [OF assms(4)] newDateTimeString_Some [OF assms(1)])

lemma new_local_seconds_again:
  assumes "local_time_exists tz (new_local_seconds tz t newDate)"
  shows "new_local_seconds tz (UTC tz (new_local_seconds tz t newDate)) newDate
           = new_local_seconds tz t newDate"
  by (simp add: new_local_seconds_def [of tz "UTC tz (new_local_seconds tz t newDate)"]
      fields_new_local_seconds [OF assms])
    (simp add: new_local_seconds_def)

lemma newDateTimeUTC_idem:
  assumes "local_time_exists tz (new_local_seconds tz t newDate)"
  shows "newDateTimeUTC tz (ISO_instant (UTC tz (new_local_seconds tz t newDate))) newDate
           = Inr (ISO_instant (UTC tz (new_local_seconds tz t newDate)))"
  by (simp add: newDateTimeUTC_Some [of tz _ "UTC tz (new_local_seconds tz t newDate)"]
      new_local_seconds_again [OF assms])

text \<open>
  When the target and the old timestamp have the same milliseconds (both have none, as a
  cell of the grid and a timestamp written by the form do), the local time that
  \<^verbatim>\<open>src/unnamed/part_000\<close> sets is the local day of the target at the local time of day of
  the old timestamp.
\<close>

lemma new_local_seconds_time_of_day:
  assumes "msFromTime (LocalTime tz newDate) = msFromTime (LocalTime tz t)"
  shows "new_local_seconds tz t newDate
           = MakeDate (Day (LocalTime tz newDate)) (TimeWithinDay (LocalTime tz t))"
  using MakeTime_fields [of "LocalTime tz t"] assms
  by (simp add: new_local_seconds_def getHours_def getMinutes_def getSeconds_def)

subsection \<open>Month grid\<close>

text \<open>
  The lemmas on the grid are for a zone in which the local midnight of every day exists,
  as it does in a zone with a fixed offset.
\<close>

lemma calendarGrid_cells:
  assumes "\<And>d. local_time_exists tz (MakeDate d 0)"
    and "\<not> (0 \<le> y \<and> y \<le> 99)" "0 \<le> m" "m < 12" "1 \<le> i" "i \<le> days_in_month y m"
  shows "getFullYear tz (new_Date tz y m i) = y" "getMonth tz (new_Date tz y m i) = m"
    "getDate tz (new_Date tz y m i) = i"
proof -
  have "MakeFullYear y = y" using assms(2) by (auto simp: MakeFullYear_def)
  then show "getFullYear tz (new_Date tz y m i) = y" "getMonth tz (new_Date tz y m i) = m"
    "getDate tz (new_Date tz y m i) = i"
    using assms(3-6) fields_MakeDay [of m i y]
    by (simp_all add: getFullYear_def getMonth_def getDate_def Day_new_Date [OF assms(1)])
qed

lemma daysInMonth:
  assumes "\<And>d. local_time_exists tz (MakeDate d 0)"
    and "\<not> (0 \<le> y \<and> y \<le> 99)" "0 \<le> m" "m < 12"
  shows "getDate tz (new_Date tz y (m + 1) 0) = days_in_month y m"
proof -
  have "1 \<le> days_in_month y m"
    using month_length_range(1) [of m "DaysInYear y = 366"] by (simp add: days_in_month_def)
  then have "DateFromDay (MakeDay y m (days_in_month y m)) = days_in_month y m"
    using assms(3,4) by (intro fields_MakeDay) simp_all
  moreover have "MakeFullYear y = y" using assms(2) by (auto simp: MakeFullYear_def)
  ultimately show ?thesis
    using assms(3,4) by (simp add: getDate_def Day_new_Date [OF assms(1)] MakeDay_date_0)
qed

lemma MakeDay_next_month:
  assumes "0 \<le> m" "m < 12"
  shows "MakeDay y m (days_in_month y m + 1) = MakeDay y (m + 1) 1"
proof -
  have "MakeDay y m (days_in_month y m + 1) = MakeDay y m (days_in_month y m) + 1"
    by (simp add: MakeDay_def Let_def)
  also have "\<dots> = MakeDay y (m + 1) 0 + 1"
    using assms by (simp add: MakeDay_date_0)
  also have "\<dots> = MakeDay y (m + 1) 1"
    by (simp add: MakeDay_def Let_def)
  finally show ?thesis .
qed

lemma day_after_month:
  assumes "\<And>d. local_time_exists tz (MakeDate d 0)"
    and "\<not> (0 \<le> y \<and> y \<le> 99)" "0 \<le> m" "m < 12"
  shows "getMonth tz (new_Date tz y m (days_in_month y m + 1)) = (m + 1) mod 12"
proof -
  have y: "MakeFullYear y = y" using assms(2) by (auto simp: MakeFullYear_def)
  have day: "Day (LocalTime tz (new_Date tz y m (days_in_month y m + 1))) = MakeDay y (m + 1) 1"
    using assms(3,4) by (simp add: Day_new_Date [OF assms(1)] y MakeDay_next_month)
  show ?thesis
  proof (cases "m = 11")
    case True
    have "MakeDay y 12 1 = MakeDay (y + 1) 0 1"
      by (simp add: MakeDay_def Let_def)
    moreover have "MonthFromDay (MakeDay (y + 1) 0 1) = 0"
      by (rule fields_MakeDay) (simp_all add: days_in_month_def month_length_def)
    ultimately show ?thesis
      unfolding getMonth_def day using True by simp
  next
    case False
    with assms have m: "0 \<le> m + 1" "m + 1 < 12" by simp_all
    have "1 \<le> days_in_month y (m + 1)"
      using month_length_range(1) [of "m + 1" "DaysInYear y = 366"] by (simp add: days_in_month_def)
    with m have "MonthFromDay (MakeDay y (m + 1) 1) = m + 1"
      by (intro fields_MakeDay) simp_all
    then show ?thesis
      unfolding getMonth_def day using m by (simp add: mod_pos_pos_trivial)
  qed
qed

text \<open>
  The month grid of a reference date whose year is not one of 0 to 99: as many empty cells
  as the weekday index of day 1 of the month of the reference date, then one cell for
  each day of that month, in order, and nothing after them. The cell of day \<open>i\<close> is the
  date with the year and month of the reference date and the date \<open>i\<close>; a month has 28
  to 31 days, and the day after the last cell is in the next month.
\<close>

lemma month_grid:
  assumes "\<And>d. local_time_exists tz (MakeDate d 0)"
    and "\<not> (0 \<le> getFullYear tz currentDate \<and> getFullYear tz currentDate \<le> 99)"
  shows "calendarGrid tz currentDate
           = replicate (nat (getDay tz (new_Date tz (getFullYear tz currentDate)
                                          (getMonth tz currentDate) 1))) None
             @ map (\<lambda>i. Some (new_Date tz (getFullYear tz currentDate) (getMonth tz currentDate) i))
                 [1..days_in_month (getFullYear tz currentDate) (getMonth tz currentDate)]"
    and "length (calendarGrid tz currentDate)
           = nat (getDay tz (new_Date tz (getFullYear tz currentDate) (getMonth tz currentDate) 1))
             + nat (days_in_month (getFullYear tz currentDate) (getMonth tz currentDate))"
    and "0 \<le> getDay tz (new_Date tz (getFullYear tz currentDate) (getMonth tz currentDate) 1)"
    and "getDay tz (new_Date tz (getFullYear tz currentDate) (getMonth tz currentDate) 1) \<le> 6"
    and "28 \<le> days_in_month (getFullYear tz currentDate) (getMonth tz currentDate)"
    and "days_in_month (getFullYear tz currentDate) (getMonth tz currentDate) \<le> 31"
    and "\<forall>i. 1 \<le> i \<and> i \<le> days_in_month (getFullYear tz currentDate) (getMonth tz currentDate)
           \<longrightarrow> getFullYear tz (new_Date tz (getFullYear tz currentDate) (getMonth tz currentDate) i)
                 = getFullYear tz currentDate
               \<and> getMonth tz (new_Date tz (getFullYear tz currentDate) (getMonth tz currentDate) i)
                   = getMonth tz currentDate
               \<and> getDate tz (new_Date tz (getFullYear tz currentDate) (getMonth tz currentDate) i) = i"
    and "getMonth tz (new_Date tz (getFullYear tz currentDate) (getMonth tz currentDate)
           (days_in_month (getFullYear tz currentDate) (getMonth tz currentDate) + 1))
         = (getMonth tz currentDate + 1) mod 12"
proof -
  let ?y = "getFullYear tz currentDate"
  let ?m = "getMonth tz currentDate"
  have m: "0 \<le> ?m" "?m < 12"
    by (simp_all add: getMonth_def MonthFromDay_range)
  have days: "getDate tz (new_Date tz ?y (?m + 1) 0) = days_in_month ?y ?m"
    using assms m by (rule daysInMonth)
  show grid: "calendarGrid tz currentDate
           = replicate (nat (getDay tz (new_Date tz ?y ?m 1))) None
             @ map (\<lambda>i. Some (new_Date tz ?y ?m i)) [1..days_in_month ?y ?m]"
    by (simp add: calendarGrid_def Let_def days)
  show "28 \<le> days_in_month ?y ?m" "days_in_month ?y ?m \<le> 31"
    by (simp_all add: days_in_month_def month_length_range)
  then show "length (calendarGrid tz currentDate)
           = nat (getDay tz (new_Date tz ?y ?m 1)) + nat (days_in_month ?y ?m)"
    by (simp add: grid)
  show "0 \<le> getDay tz (new_Date tz ?y ?m 1)" "getDay tz (new_Date tz ?y ?m 1) \<le> 6"
    by (simp_all add: getDay_def WeekDay_def)
  show "\<forall>i. 1 \<le> i \<and> i \<le> days_in_month ?y ?m
           \<longrightarrow> getFullYear tz (new_Date tz ?y ?m i) = ?y
               \<and> getMonth tz (new_Date tz ?y ?m i) = ?m
               \<and> getDate tz (new_Date tz ?y ?m i) = i"
    using assms(2) m by (simp add: calendarGrid_cells [OF assms(1)])
  show "getMonth tz (new_Date tz ?y ?m (days_in_month ?y ?m + 1)) = (?m + 1) mod 12"
    using assms m by (rule day_after_month)
qed

text \<open>
  End-to-end scenario 1: the grid of February 2024 has 4 empty cells and 29 day cells.
\<close>

lemma month_grid_february_2024:
  "getFullYear (fixed_zone (-180)) 1708000000000 = 2024
   \<and> getMonth (fixed_zone (-180)) 1708000000000 = 1
   \<and> calendarGrid (fixed_zone (-180)) 1708000000000
       = replicate 4 None @ map (\<lambda>i. Some (new_Date (fixed_zone (-180)) 2024 1 i)) [1..29]
   \<and> length (calendarGrid (fixed_zone (-180)) 1708000000000) = 33"
  by code_simp

text \<open>
  C2 fails for a reference date in a year from 0 to 99, because \<^verbatim>\<open>new Date(year, month, 1)\<close>
  reads such a year as the year 1900 later. The button for the month before leads from
  January 100 to 1 December 99, \<^verbatim>\<open>new Date(100, -1, 1)\<close>. Day 1 of that month has the
  weekday index 2, but the grid of that reference date starts with 3 empty cells, and its
  31 day cells are the days of December 1999. The zone is UTC.
\<close>

theorem month_grid_december_99:
  "getFullYear (fixed_zone 0) (new_Date (fixed_zone 0) 100 (-1) 1) = 99
   \<and> getMonth (fixed_zone 0) (new_Date (fixed_zone 0) 100 (-1) 1) = 11
   \<and> getDate (fixed_zone 0) (new_Date (fixed_zone 0) 100 (-1) 1) = 1
   \<and> getDay (fixed_zone 0) (new_Date (fixed_zone 0) 100 (-1) 1) = 2
   \<and> calendarGrid (fixed_zone 0) (new_Date (fixed_zone 0) 100 (-1) 1)
       = replicate 3 None @ map (\<lambda>i. Some (new_Date (fixed_zone 0) 1999 11 i)) [1..31]
   \<and> getFullYear (fixed_zone 0) (new_Date (fixed_zone 0) 1999 11 1) = 1999"
  by code_simp

subsection \<open>Drag and drop rescheduling\<close>

lemma find_id_None: "sid \<notin> surgery_id ` set xs \<Longrightarrow> find (\<lambda>s. surgery_id s = sid) xs = None"
  by (auto simp: find_None_iff)

lemma find_in_set: "find P xs = Some x \<Longrightarrow> x \<in> set xs \<and> P x"
  by (auto simp: find_Some_iff)

lemma find_replaced:
  "find P xs = Some x \<Longrightarrow> P u \<Longrightarrow> find P (map (\<lambda>s. if P s then u else s) xs) = Some u"
  by (induction xs) (auto split: if_splits)

lemma replace_again:
  "map (\<lambda>s. if surgery_id s = sid then u else s) (map (\<lambda>s. if surgery_id s = sid then u else s) xs)
     = map (\<lambda>s. if surgery_id s = sid then u else s) xs"
  if "surgery_id u = sid"
  using that by (induction xs) auto

lemma the_one_with_id:
  assumes "distinct (map surgery_id xs)" "find (\<lambda>s. surgery_id s = sid) xs = Some x"
    "y \<in> set xs" "surgery_id y = sid"
  shows "y = x"
proof -
  have "x \<in> set xs" "surgery_id x = sid"
    using find_in_set [OF assms(2)] by simp_all
  moreover have "inj_on surgery_id (set xs)"
    using assms(1) by (simp add: distinct_map)
  ultimately show ?thesis using assms(3,4) by (auto dest: inj_onD)
qed

text \<open>
  The example of C1 in a zone with a fixed offset of \<open>m\<close> minutes, from 14 hours 30 minutes
  behind UTC to 9 hours 29 minutes ahead: there 14:30 UTC of 10 March 2024 is a time of
  that day or, behind UTC, of the same local day as the cell.
\<close>

lemma example_time_of_day:
  assumes "- 870 \<le> m" "m < 570"
  shows "TimeWithinDay (LocalTime (fixed_zone m) 1710081000000) = 52200000 + m * 60000"
    and "msFromTime (LocalTime (fixed_zone m) 1710081000000) = 0"
    and "SecFromTime (LocalTime (fixed_zone m) 1710081000000) = 0"
proof -
  show "TimeWithinDay (LocalTime (fixed_zone m) 1710081000000) = 52200000 + m * 60000"
    unfolding TimeWithinDay_def fixed_zone_simps msPerDay_def
    by (rule int_mod_pos_eq [where q = 19792]) (use assms in simp_all)
  show "msFromTime (LocalTime (fixed_zone m) 1710081000000) = 0"
    unfolding msFromTime_def fixed_zone_simps
    by (rule int_mod_pos_eq [where q = "1710081000 + m * 60"]) simp_all
  have "(1710081000000 + m * 60000) div 1000 = 1710081000 + m * 60"
    by (rule int_div_pos_eq [where r = 0]) simp_all
  moreover have "(1710081000 + m * 60) mod 60 = 0"
    by (rule int_mod_pos_eq [where q = "28501350 + m"]) simp_all
  ultimately show "SecFromTime (LocalTime (fixed_zone m) 1710081000000) = 0"
    by (simp add: SecFromTime_def fixed_zone_simps)
qed

lemma example_target:
  "LocalTime (fixed_zone m) (new_Date (fixed_zone m) 2024 2 15) = 1710460800000"
  by (simp add: LocalTime_UTC local_time_exists_fixed new_Date_def) code_simp

lemma example_reschedule:
  assumes "- 870 \<le> m" "m < 570"
  shows "newDateTimeUTC (fixed_zone m) (ISO_instant 1710081000000)
             (new_Date (fixed_zone m) 2024 2 15)
           = Inr (ISO_instant 1710513000000)"
    and "Date_parse (fixed_zone m)
             (newDateTimeString (fixed_zone m) (ISO_instant 1710081000000)
                (new_Date (fixed_zone m) 2024 2 15))
           = Some 1710513000000"
proof -
  let ?tz = "fixed_zone m"
  let ?target = "new_Date ?tz 2024 2 15"
  have day: "Day 1710460800000 = 19797" and ms: "msFromTime 1710460800000 = 0"
    and year: "YearFromDay 19797 = 2024"
    by code_simp+
  have parse: "Date_parse ?tz (ISO_instant 1710081000000) = Some 1710081000000"
    by simp
  have "msFromTime (LocalTime ?tz ?target) = msFromTime (LocalTime ?tz 1710081000000)"
    using example_time_of_day(2) [OF assms] by (simp add: example_target ms)
  from new_local_seconds_time_of_day [OF this]
  have "new_local_seconds ?tz 1710081000000 ?target = 1710513000000 + m * 60000"
    using example_time_of_day(1) [OF assms]
    by (simp add: example_target day MakeDate_def msPerDay_def)
  then have "UTC ?tz (new_local_seconds ?tz 1710081000000 ?target) = 1710513000000"
    by (simp add: fixed_zone_simps(2))
  then show "newDateTimeUTC ?tz (ISO_instant 1710081000000) ?target
      = Inr (ISO_instant 1710513000000)"
    by (simp add: newDateTimeUTC_Some [OF parse])
  have "MakeTime (getHours ?tz 1710081000000) (getMinutes ?tz 1710081000000) 0 0
      = 52200000 + m * 60000"
    using MakeTime_fields [of "LocalTime ?tz 1710081000000"] example_time_of_day [OF assms]
    by (simp add: getHours_def getMinutes_def MakeTime_def)
  then have "new_local_minutes ?tz 1710081000000 ?target = 1710513000000 + m * 60000"
    by (simp add: new_local_minutes_def example_target day MakeDate_def msPerDay_def)
  then have "UTC ?tz (new_local_minutes ?tz 1710081000000 ?target) = 1710513000000"
    by (simp add: fixed_zone_simps(2))
  moreover have "getFullYear ?tz ?target = 2024"
    by (simp add: getFullYear_def example_target day year)
  ultimately show "Date_parse ?tz (newDateTimeString ?tz (ISO_instant 1710081000000) ?target)
      = Some 1710513000000"
    by (simp add: parse_newDateTimeString [OF parse])
qed

text \<open>
  C1, as stated, fails. In \<^verbatim>\<open>src/index.tsx\<close> the new timestamp is written with hours and
  minutes only, so the seconds of a timestamp such as \<^verbatim>\<open>2024-03-10T14:30:45\<close> are lost. And
  the time of day that is kept is the local one: where local time is ten hours ahead of
  UTC, \<^verbatim>\<open>src/unnamed/part_000\<close> moves the surgery of \<^verbatim>\<open>2024-03-10T14:30:00Z\<close>, dragged to the
  cell of 15 March 2024, to \<^verbatim>\<open>2024-03-14T14:30:00Z\<close>.

  A local time of day need not exist on the target date. In \<^const>\<open>spring_forward_zone\<close> the
  surgery of 5 March 2024 at 02:30, dragged to the cell of 10 March, gets from
  \<^verbatim>\<open>src/index.tsx\<close> the timestamp \<^verbatim>\<open>2024-03-10T02:30\<close>, which is read as 03:30 of that day, and
  from \<^verbatim>\<open>src/unnamed/part_000\<close> the instant of 03:30. And in \<^verbatim>\<open>src/index.tsx\<close> a target in
  the year 999 gets the timestamp \<^verbatim>\<open>999-01-01T14:30\<close>, which cannot be read as a date; a
  surgery with that timestamp, dragged to the cell of 15 March 2024, gets
  \<^verbatim>\<open>2024-03-15TNaN:NaN\<close> from \<^verbatim>\<open>src/index.tsx\<close>, and \<^verbatim>\<open>src/unnamed/part_000\<close> throws.
\<close>

theorem reschedule_drops_seconds:
  "map_option (getSeconds (fixed_zone (-180)))
       (Date_parse (fixed_zone (-180)) (Local_seconds 2024 3 10 14 30 45)) = Some 45
   \<and> updates (handleSurgeryDrop (fixed_zone (-180))
        [surgery_at (Local_seconds 2024 3 10 14 30 45)] 7
        (new_Date (fixed_zone (-180)) 2024 2 15) None) = [(7, Local_minutes 2024 3 15 14 30)]
   \<and> map_option (getSeconds (fixed_zone (-180)))
        (Date_parse (fixed_zone (-180)) (Local_minutes 2024 3 15 14 30)) = Some 0
   \<and> Date_parse (fixed_zone 600) (ISO_instant 1710081000000) = Some 1710081000000
   \<and> handleSurgeryDrop_part000 (fixed_zone 600)
        [surgery_at (Some (ISO_instant 1710081000000))] 7
        (new_Date (fixed_zone 600) 2024 2 15) None
       = Inr \<lparr>updates = [(7, ISO_instant 1710426600000)], toasts = [reschedule_toast None]\<rparr>
   \<and> Date_parse spring_forward_zone (Local_minutes 2024 3 5 2 30) = Some 1709623800000
   \<and> getHours spring_forward_zone 1709623800000 = 2
   \<and> updates (handleSurgeryDrop spring_forward_zone
        [surgery_at (Local_minutes 2024 3 5 2 30)] 7
        (new_Date spring_forward_zone 2024 2 10) None) = [(7, Local_minutes 2024 3 10 2 30)]
   \<and> Date_parse spring_forward_zone (Local_minutes 2024 3 10 2 30) = Some 1710055800000
   \<and> getHours spring_forward_zone 1710055800000 = 3
   \<and> handleSurgeryDrop_part000 spring_forward_zone
        [surgery_at (Some (ISO_instant 1709623800000))] 7
        (new_Date spring_forward_zone 2024 2 10) None
       = Inr \<lparr>updates = [(7, ISO_instant 1710055800000)], toasts = [reschedule_toast None]\<rparr>
   \<and> updates (handleSurgeryDrop (fixed_zone (-180))
        [surgery_at (Local_minutes 2024 3 10 14 30)] 7
        (new_Date (fixed_zone (-180)) 999 0 1) None) = [(7, Local_minutes 999 1 1 14 30)]
   \<and> Date_parse (fixed_zone (-180)) (Local_minutes 999 1 1 14 30) = None
   \<and> updates (handleSurgeryDrop (fixed_zone (-180))
        [surgery_at (Local_minutes 999 1 1 14 30)] 7
        (new_Date (fixed_zone (-180)) 2024 2 15) None) = [(7, Local_NaN 2024 3 15)]
   \<and> handleSurgeryDrop_part000 (fixed_zone (-180))
        [surgery_at (Some (Local_minutes 999 1 1 14 30))] 7
        (new_Date (fixed_zone (-180)) 2024 2 15) None = Inl RangeError"
  by code_simp

text \<open>
  C1, amended: for every surgery whose timestamp is a date and every target date, when
  the local time that the drag is to give the surgery exists in the zone of the browser
  (no change of daylight saving time skips it) and, in \<^verbatim>\<open>src/index.tsx\<close>, the year of the
  target is from 1000 to 9999, the timestamp that the drag writes is a date that has,
  read in local time, the year, month and date of the target and the hour and minute of
  the old timestamp; in \<^verbatim>\<open>src/unnamed/part_000\<close> it has the second of the old timestamp as
  well. Where local time is UTC plus a fixed offset from 14 hours 30 minutes behind to 9
  hours 29 minutes ahead, the surgery of \<^verbatim>\<open>2024-03-10T14:30:00Z\<close> dragged to the cell of 15
  March 2024 moves to \<^verbatim>\<open>2024-03-15T14:30:00Z\<close>.
\<close>

theorem reschedule_keeps_time_of_day:
  "(Date_parse tz old = Some t
      \<and> 1000 \<le> getFullYear tz newDate \<and> getFullYear tz newDate \<le> 9999
      \<and> local_time_exists tz (new_local_minutes tz t newDate)
      \<longrightarrow> Date_parse tz (newDateTimeString tz old newDate)
            = Some (UTC tz (new_local_minutes tz t newDate))
          \<and> getFullYear tz (UTC tz (new_local_minutes tz t newDate)) = getFullYear tz newDate
          \<and> getMonth tz (UTC tz (new_local_minutes tz t newDate)) = getMonth tz newDate
          \<and> getDate tz (UTC tz (new_local_minutes tz t newDate)) = getDate tz newDate
          \<and> getHours tz (UTC tz (new_local_minutes tz t newDate)) = getHours tz t
          \<and> getMinutes tz (UTC tz (new_local_minutes tz t newDate)) = getMinutes tz t)
   \<and> (Date_parse tz old = Some t \<and> local_time_exists tz (new_local_seconds tz t newDate)
      \<longrightarrow> newDateTimeUTC tz old newDate
            = Inr (ISO_instant (UTC tz (new_local_seconds tz t newDate)))
          \<and> getFullYear tz (UTC tz (new_local_seconds tz t newDate)) = getFullYear tz newDate
          \<and> getMonth tz (UTC tz (new_local_seconds tz t newDate)) = getMonth tz newDate
          \<and> getDate tz (UTC tz (new_local_seconds tz t newDate)) = getDate tz newDate
          \<and> getHours tz (UTC tz (new_local_seconds tz t newDate)) = getHours tz t
          \<and> getMinutes tz (UTC tz (new_local_seconds tz t newDate)) = getMinutes tz t
          \<and> getSeconds tz (UTC tz (new_local_seconds tz t newDate)) = getSeconds tz t)
   \<and> (find (\<lambda>s. surgery_id s = surgeryId) surgeries = Some s
        \<longrightarrow> updates (handleSurgeryDrop tz surgeries surgeryId newDate response)
              = [(surgeryId, newDateTimeString tz (date_time s) newDate)])
   \<and> (find (\<lambda>s. surgery_id s = surgeryId) surgeries_p = Some s_p \<and> date_time s_p = Some old_p
        \<and> Date_parse tz old_p = Some t_p
        \<longrightarrow> handleSurgeryDrop_part000 tz surgeries_p surgeryId newDate response
              = Inr \<lparr>updates = [(surgeryId,
                                 ISO_instant (UTC tz (new_local_seconds tz t_p newDate)))],
                     toasts = [reschedule_toast response]\<rparr>)
   \<and> (- 870 \<le> m \<and> m < 570
        \<longrightarrow> newDateTimeUTC (fixed_zone m) (ISO_instant 1710081000000)
                (new_Date (fixed_zone m) 2024 2 15)
              = Inr (ISO_instant 1710513000000)
            \<and> Date_parse (fixed_zone m)
                (newDateTimeString (fixed_zone m) (ISO_instant 1710081000000)
                   (new_Date (fixed_zone m) 2024 2 15))
              = Some 1710513000000)"
proof -
  have "Date_parse tz (newDateTimeString tz old newDate)
            = Some (UTC tz (new_local_minutes tz t newDate))
          \<and> getFullYear tz (UTC tz (new_local_minutes tz t newDate)) = getFullYear tz newDate
          \<and> getMonth tz (UTC tz (new_local_minutes tz t newDate)) = getMonth tz newDate
          \<and> getDate tz (UTC tz (new_local_minutes tz t newDate)) = getDate tz newDate
          \<and> getHours tz (UTC tz (new_local_minutes tz t newDate)) = getHours tz t
          \<and> getMinutes tz (UTC tz (new_local_minutes tz t newDate)) = getMinutes tz t"
    if "Date_parse tz old = Some t" "1000 \<le> getFullYear tz newDate"
      "getFullYear tz newDate \<le> 9999" "local_time_exists tz (new_local_minutes tz t newDate)"
    using parse_newDateTimeString [OF that(1-3)] fields_new_local_minutes [OF that(4)]
    by (simp add: getFullYear_def getMonth_def getDate_def)
  moreover have "newDateTimeUTC tz old newDate
            = Inr (ISO_instant (UTC tz (new_local_seconds tz t newDate)))
          \<and> getFullYear tz (UTC tz (new_local_seconds tz t newDate)) = getFullYear tz newDate
          \<and> getMonth tz (UTC tz (new_local_seconds tz t newDate)) = getMonth tz newDate
          \<and> getDate tz (UTC tz (new_local_seconds tz t newDate)) = getDate tz newDate
          \<and> getHours tz (UTC tz (new_local_seconds tz t newDate)) = getHours tz t
          \<and> getMinutes tz (UTC tz (new_local_seconds tz t newDate)) = getMinutes tz t
          \<and> getSeconds tz (UTC tz (new_local_seconds tz t newDate)) = getSeconds tz t"
    if "Date_parse tz old = Some t" "local_time_exists tz (new_local_seconds tz t newDate)"
    using newDateTimeUTC_Some [OF that(1)] fields_new_local_seconds [OF that(2)]
    by (simp add: getFullYear_def getMonth_def getDate_def)
  moreover have "updates (handleSurgeryDrop tz surgeries surgeryId newDate response)
              = [(surgeryId, newDateTimeString tz (date_time s) newDate)]"
    if "find (\<lambda>s. surgery_id s = surgeryId) surgeries = Some s"
    using that by (simp add: handleSurgeryDrop_def)
  moreover have "handleSurgeryDrop_part000 tz surgeries_p surgeryId newDate response
              = Inr \<lparr>updates = [(surgeryId,
                                 ISO_instant (UTC tz (new_local_seconds tz t_p newDate)))],
                     toasts = [reschedule_toast response]\<rparr>"
    if "find (\<lambda>s. surgery_id s = surgeryId) surgeries_p = Some s_p \<and> date_time s_p = Some old_p
        \<and> Date_parse tz old_p = Some t_p"
    using that by (simp add: handleSurgeryDrop_part000_def newDateTimeUTC_Some)
  ultimately show ?thesis
    using example_reschedule [of m] by blast
qed

theorem reschedule_keeps_time_of_day_witness:
  "Date_parse spring_forward_zone
      (newDateTimeString spring_forward_zone (Local_seconds 2024 3 5 2 30 45)
         (new_Date spring_forward_zone 2024 2 15))
     = Some (UTC spring_forward_zone
         (new_local_minutes spring_forward_zone 1709623845000
            (new_Date spring_forward_zone 2024 2 15)))
   \<and> getHours spring_forward_zone
        (UTC spring_forward_zone
           (new_local_minutes spring_forward_zone 1709623845000
              (new_Date spring_forward_zone 2024 2 15)))
       = getHours spring_forward_zone 1709623845000
   \<and> newDateTimeUTC spring_forward_zone (Local_seconds 2024 3 5 2 30 45)
        (new_Date spring_forward_zone 2024 2 15)
       = Inr (ISO_instant (UTC spring_forward_zone
           (new_local_seconds spring_forward_zone 1709623845000
              (new_Date spring_forward_zone 2024 2 15))))
   \<and> getSeconds spring_forward_zone
        (UTC spring_forward_zone
           (new_local_seconds spring_forward_zone 1709623845000
              (new_Date spring_forward_zone 2024 2 15)))
       = getSeconds spring_forward_zone 1709623845000
   \<and> updates (handleSurgeryDrop spring_forward_zone
        [surgery_at (Local_seconds 2024 3 5 2 30 45)] 7
        (new_Date spring_forward_zone 2024 2 15) None)
       = [(7, newDateTimeString spring_forward_zone
                (date_time (surgery_at (Local_seconds 2024 3 5 2 30 45)))
                (new_Date spring_forward_zone 2024 2 15))]
   \<and> handleSurgeryDrop_part000 spring_forward_zone
        [surgery_at (Some (Local_seconds 2024 3 5 2 30 45))] 7
        (new_Date spring_forward_zone 2024 2 15) None
       = Inr \<lparr>updates = [(7, ISO_instant (UTC spring_forward_zone
                  (new_local_seconds spring_forward_zone 1709623845000
                     (new_Date spring_forward_zone 2024 2 15))))],
              toasts = [reschedule_toast None]\<rparr>
   \<and> newDateTimeUTC (fixed_zone (-180)) (ISO_instant 1710081000000)
        (new_Date (fixed_zone (-180)) 2024 2 15)
       = Inr (ISO_instant 1710513000000)
   \<and> Date_parse (fixed_zone (-180))
        (newDateTimeString (fixed_zone (-180)) (ISO_instant 1710081000000)
           (new_Date (fixed_zone (-180)) 2024 2 15))
       = Some 1710513000000"
proof -
  let ?tz = spring_forward_zone
  let ?old = "Local_seconds 2024 3 5 2 30 45"
  let ?target = "new_Date ?tz 2024 2 15"
  have a: "Date_parse ?tz ?old = Some 1709623845000
      \<and> 1000 \<le> getFullYear ?tz ?target \<and> getFullYear ?tz ?target \<le> 9999
      \<and> local_time_exists ?tz (new_local_minutes ?tz 1709623845000 ?target)"
    by code_simp
  have b: "Date_parse ?tz ?old = Some 1709623845000
      \<and> local_time_exists ?tz (new_local_seconds ?tz 1709623845000 ?target)"
    by code_simp
  have c: "find (\<lambda>s. surgery_id s = 7) [surgery_at ?old] = Some (surgery_at ?old)"
    by (simp add: surgery_at_def)
  have d: "find (\<lambda>s. surgery_id s = 7) [surgery_at (Some ?old)] = Some (surgery_at (Some ?old))
      \<and> date_time (surgery_at (Some ?old)) = Some ?old
      \<and> Date_parse ?tz ?old = Some 1709623845000"
    using a by (simp add: surgery_at_def)
  have e: "- 870 \<le> (- 180 :: int) \<and> (- 180 :: int) < 570" by simp
  from reschedule_keeps_time_of_day [where tz = ?tz and old = ?old and t = 1709623845000
        and newDate = ?target and surgeryId = 7 and surgeries = "[surgery_at ?old]"
        and s = "surgery_at ?old" and response = None
        and surgeries_p = "[surgery_at (Some ?old)]" and s_p = "surgery_at (Some ?old)"
        and old_p = ?old and t_p = 1709623845000 and m = "- 180"]
    a b c d e
  show ?thesis by blast
qed

lemma drop_part002_found:
  assumes "find (\<lambda>s. surgery_id s = sid) prev = Some s"
  shows "fst (handleSurgeryDrop_part002 tz sid d prev)
           = map (\<lambda>x. if surgery_id x = sid
                       then s\<lparr>date_time := newDateTimeString tz (date_time s) d\<rparr> else x) prev"
  using assms
  by (simp add: handleSurgeryDrop_part002_def setValue_def drop_updater_part002_def Let_def)

lemma drop_part002_missing:
  assumes "find (\<lambda>s. surgery_id s = sid) prev = None"
  shows "handleSurgeryDrop_part002 tz sid d prev = (prev, [(''surgeries'', prev)], [])"
  using assms by (simp add: handleSurgeryDrop_part002_def setValue_def drop_updater_part002_def)

lemma drop_part002_idem:
  assumes "find (\<lambda>s. surgery_id s = sid) prev = Some s"
    and "newDateTimeString tz (newDateTimeString tz (date_time s) d) d
           = newDateTimeString tz (date_time s) d"
  shows "fst (handleSurgeryDrop_part002 tz sid d (fst (handleSurgeryDrop_part002 tz sid d prev)))
           = fst (handleSurgeryDrop_part002 tz sid d prev)"
proof -
  let ?u = "s\<lparr>date_time := newDateTimeString tz (date_time s) d\<rparr>"
  let ?res = "map (\<lambda>x. if surgery_id x = sid then ?u else x) prev"
  have id: "surgery_id ?u = sid"
    using find_in_set [OF assms(1)] by simp
  have first: "fst (handleSurgeryDrop_part002 tz sid d prev) = ?res"
    using assms(1) by (rule drop_part002_found)
  have "find (\<lambda>s. surgery_id s = sid) ?res = Some ?u"
    using assms(1) id by (rule find_replaced)
  then have "fst (handleSurgeryDrop_part002 tz sid d ?res)
      = map (\<lambda>x. if surgery_id x = sid
                  then ?u\<lparr>date_time := newDateTimeString tz (date_time ?u) d\<rparr> else x) ?res"
    by (rule drop_part002_found)
  also have "?u\<lparr>date_time := newDateTimeString tz (date_time ?u) d\<rparr> = ?u"
    by (simp add: assms(2))
  also have "map (\<lambda>x. if surgery_id x = sid then ?u else x) ?res = ?res"
    using id by (rule replace_again)
  finally show ?thesis by (simp only: first)
qed

lemma newDateTimeString_cong:
  "Date_parse tz a = Date_parse tz b \<Longrightarrow> newDateTimeString tz a d = newDateTimeString tz b d"
  by (simp add: newDateTimeString_def)

lemma drop_after_echo:
  assumes "find (\<lambda>s. surgery_id s = sid) surgeries = Some s"
    and "newDateTimeString tz (newDateTimeString tz (date_time s) d) d
           = newDateTimeString tz (date_time s) d"
    and "Date_parse tz echoed = Date_parse tz (newDateTimeString tz (date_time s) d)"
  shows "handleSurgeryDrop tz
           (postgres_changes (UPDATE (s\<lparr>date_time := echoed\<rparr>)) surgeries) sid d response
         = handleSurgeryDrop tz surgeries sid d response"
proof -
  let ?u = "s\<lparr>date_time := echoed\<rparr>"
  have sid: "surgery_id s = sid"
    using find_in_set [OF assms(1)] by simp
  have echo: "postgres_changes (UPDATE ?u) surgeries
      = map (\<lambda>x. if surgery_id x = sid then ?u else x) surgeries"
    by (simp add: sid)
  have "surgery_id ?u = sid"
    by (simp add: sid)
  with assms(1) have found: "find (\<lambda>s. surgery_id s = sid)
      (map (\<lambda>x. if surgery_id x = sid then ?u else x) surgeries) = Some ?u"
    by (rule find_replaced)
  have "newDateTimeString tz echoed d = newDateTimeString tz (date_time s) d"
    using newDateTimeString_cong [OF assms(3), of d] assms(2) by simp
  then show ?thesis
    unfolding handleSurgeryDrop_def echo found assms(1) by simp
qed

text \<open>
  C7, as stated, fails in \<^verbatim>\<open>src/index.tsx\<close> and \<^verbatim>\<open>src/unnamed/part_002\<close>. In
  \<^const>\<open>spring_forward_zone\<close> the surgery of 5 March 2024 at 02:30, dragged to the cell of 10
  March, gets the timestamp \<^verbatim>\<open>2024-03-10T02:30\<close>, a local time that the change of
  daylight saving time skips; it is read as 03:30, so the same drag again writes
  \<^verbatim>\<open>2024-03-10T03:30\<close>. And a drag to a cell of the year 999 writes \<^verbatim>\<open>999-01-01T14:30\<close>, which
  cannot be read as a date, so the same drag again writes \<^verbatim>\<open>999-01-01TNaN:NaN\<close>.
\<close>

theorem reschedule_twice_differs:
  "newDateTimeString spring_forward_zone (Local_minutes 2024 3 5 2 30)
      (new_Date spring_forward_zone 2024 2 10) = Local_minutes 2024 3 10 2 30
   \<and> newDateTimeString spring_forward_zone (Local_minutes 2024 3 10 2 30)
        (new_Date spring_forward_zone 2024 2 10) = Local_minutes 2024 3 10 3 30
   \<and> fst (handleSurgeryDrop_part002 spring_forward_zone 7 (new_Date spring_forward_zone 2024 2 10)
        [surgery_at (Local_minutes 2024 3 5 2 30)])
       = [surgery_at (Local_minutes 2024 3 10 2 30)]
   \<and> fst (handleSurgeryDrop_part002 spring_forward_zone 7 (new_Date spring_forward_zone 2024 2 10)
        [surgery_at (Local_minutes 2024 3 10 2 30)])
       = [surgery_at (Local_minutes 2024 3 10 3 30)]
   \<and> updates (handleSurgeryDrop spring_forward_zone [surgery_at (Local_minutes 2024 3 5 2 30)] 7
        (new_Date spring_forward_zone 2024 2 10) None) = [(7, Local_minutes 2024 3 10 2 30)]
   \<and> updates (handleSurgeryDrop spring_forward_zone [surgery_at (Local_minutes 2024 3 10 2 30)] 7
        (new_Date spring_forward_zone 2024 2 10) None) = [(7, Local_minutes 2024 3 10 3 30)]
   \<and> newDateTimeString (fixed_zone (-180)) (Local_minutes 2024 3 10 14 30)
        (new_Date (fixed_zone (-180)) 999 0 1) = Local_minutes 999 1 1 14 30
   \<and> newDateTimeString (fixed_zone (-180)) (Local_minutes 999 1 1 14 30)
        (new_Date (fixed_zone (-180)) 999 0 1) = Local_NaN 999 1 1"
  by code_simp

text \<open>
  C7, amended: for every surgery whose timestamp is a date and every target date whose
  year is from 1000 to 9999, when the local time that the drag is to give the surgery
  exists in the zone of the browser, the drag applied to its own result with the same
  target gives that result again. This holds of the timestamp that the template literal
  of \<^verbatim>\<open>src/index.tsx\<close> and \<^verbatim>\<open>src/unnamed/part_002\<close> writes, of the collection of
  \<^verbatim>\<open>src/unnamed/part_002\<close> after two drags, and of the write of \<^verbatim>\<open>src/index.tsx\<close> once the
  change feed has brought the row with the written timestamp, in the text that was
  written or in another that reads as the same date (the database may add the seconds).
  The instant that \<^verbatim>\<open>src/unnamed/part_000\<close> writes is reproduced too, whatever the year.
\<close>

theorem reschedule_idempotent:
  "(Date_parse tz old = Some t
      \<and> 1000 \<le> getFullYear tz newDate \<and> getFullYear tz newDate \<le> 9999
      \<and> local_time_exists tz (new_local_minutes tz t newDate)
      \<longrightarrow> newDateTimeString tz (newDateTimeString tz old newDate) newDate
            = newDateTimeString tz old newDate)
   \<and> (find (\<lambda>s. surgery_id s = surgeryId) prev = Some s_p
        \<and> Date_parse tz (date_time s_p) = Some t_p
        \<and> 1000 \<le> getFullYear tz newDate \<and> getFullYear tz newDate \<le> 9999
        \<and> local_time_exists tz (new_local_minutes tz t_p newDate)
        \<longrightarrow> fst (handleSurgeryDrop_part002 tz surgeryId newDate
                   (fst (handleSurgeryDrop_part002 tz surgeryId newDate prev)))
              = fst (handleSurgeryDrop_part002 tz surgeryId newDate prev))
   \<and> (find (\<lambda>s. surgery_id s = surgeryId) surgeries = Some s
        \<and> Date_parse tz (date_time s) = Some t_s
        \<and> 1000 \<le> getFullYear tz newDate \<and> getFullYear tz newDate \<le> 9999
        \<and> local_time_exists tz (new_local_minutes tz t_s newDate)
        \<and> Date_parse tz echoed = Date_parse tz (newDateTimeString tz (date_time s) newDate)
        \<longrightarrow> handleSurgeryDrop tz
              (postgres_changes (UPDATE (s\<lparr>date_time := echoed\<rparr>)) surgeries)
              surgeryId newDate response
            = handleSurgeryDrop tz surgeries surgeryId newDate response)
   \<and> (Date_parse tz old = Some t \<and> local_time_exists tz (new_local_seconds tz t newDate)
        \<longrightarrow> newDateTimeUTC tz old newDate
              = Inr (ISO_instant (UTC tz (new_local_seconds tz t newDate)))
            \<and> newDateTimeUTC tz (ISO_instant (UTC tz (new_local_seconds tz t newDate))) newDate
                = newDateTimeUTC tz old newDate)"
proof -
  have "fst (handleSurgeryDrop_part002 tz surgeryId newDate
               (fst (handleSurgeryDrop_part002 tz surgeryId newDate prev)))
          = fst (handleSurgeryDrop_part002 tz surgeryId newDate prev)"
    if "find (\<lambda>s. surgery_id s = surgeryId) prev = Some s_p"
      "Date_parse tz (date_time s_p) = Some t_p"
      "1000 \<le> getFullYear tz newDate" "getFullYear tz newDate \<le> 9999"
      "local_time_exists tz (new_local_minutes tz t_p newDate)"
    using that(1) newDateTimeString_idem [OF that(2-5)] by (rule drop_part002_idem)
  moreover have "handleSurgeryDrop tz
              (postgres_changes (UPDATE (s\<lparr>date_time := echoed\<rparr>)) surgeries)
              surgeryId newDate response
            = handleSurgeryDrop tz surgeries surgeryId newDate response"
    if "find (\<lambda>s. surgery_id s = surgeryId) surgeries = Some s"
      "Date_parse tz (date_time s) = Some t_s"
      "1000 \<le> getFullYear tz newDate" "getFullYear tz newDate \<le> 9999"
      "local_time_exists tz (new_local_minutes tz t_s newDate)"
      "Date_parse tz echoed = Date_parse tz (newDateTimeString tz (date_time s) newDate)"
    using that(1) newDateTimeString_idem [OF that(2-5)] that(6) by (rule drop_after_echo)
  moreover have "newDateTimeUTC tz old newDate
              = Inr (ISO_instant (UTC tz (new_local_seconds tz t newDate)))
            \<and> newDateTimeUTC tz (ISO_instant (UTC tz (new_local_seconds tz t newDate))) newDate
                = newDateTimeUTC tz old newDate"
    if "Date_parse tz old = Some t" "local_time_exists tz (new_local_seconds tz t newDate)"
    using newDateTimeUTC_Some [OF that(1), of newDate] newDateTimeUTC_idem [OF that(2)]
    by simp
  ultimately show ?thesis
    using newDateTimeString_idem [of tz old t newDate] by blast
qed

theorem reschedule_idempotent_witness:
  "newDateTimeString spring_forward_zone
      (newDateTimeString spring_forward_zone (Local_minutes 2024 3 5 2 30)
         (new_Date spring_forward_zone 2024 2 15))
      (new_Date spring_forward_zone 2024 2 15)
     = newDateTimeString spring_forward_zone (Local_minutes 2024 3 5 2 30)
         (new_Date spring_forward_zone 2024 2 15)
   \<and> newDateTimeString spring_forward_zone (Local_minutes 2024 3 5 2 30)
        (new_Date spring_forward_zone 2024 2 15) = Local_minutes 2024 3 15 2 30
   \<and> fst (handleSurgeryDrop_part002 spring_forward_zone 7 (new_Date spring_forward_zone 2024 2 15)
        (fst (handleSurgeryDrop_part002 spring_forward_zone 7
           (new_Date spring_forward_zone 2024 2 15) [surgery_at (Local_minutes 2024 3 5 2 30)])))
       = fst (handleSurgeryDrop_part002 spring_forward_zone 7
           (new_Date spring_forward_zone 2024 2 15) [surgery_at (Local_minutes 2024 3 5 2 30)])
   \<and> handleSurgeryDrop spring_forward_zone
        (postgres_changes
           (UPDATE ((surgery_at (Local_minutes 2024 3 5 2 30))
              \<lparr>date_time := Local_seconds 2024 3 15 2 30 0\<rparr>))
           [surgery_at (Local_minutes 2024 3 5 2 30)])
        7 (new_Date spring_forward_zone 2024 2 15) None
       = handleSurgeryDrop spring_forward_zone [surgery_at (Local_minutes 2024 3 5 2 30)]
           7 (new_Date spring_forward_zone 2024 2 15) None
   \<and> newDateTimeUTC spring_forward_zone
        (ISO_instant (UTC spring_forward_zone
           (new_local_seconds spring_forward_zone 1709623800000
              (new_Date spring_forward_zone 2024 2 15))))
        (new_Date spring_forward_zone 2024 2 15)
       = newDateTimeUTC spring_forward_zone (Local_minutes 2024 3 5 2 30)
           (new_Date spring_forward_zone 2024 2 15)"
proof -
  let ?tz = spring_forward_zone
  let ?old = "Local_minutes 2024 3 5 2 30"
  let ?target = "new_Date ?tz 2024 2 15"
  have a: "Date_parse ?tz ?old = Some 1709623800000
      \<and> 1000 \<le> getFullYear ?tz ?target \<and> getFullYear ?tz ?target \<le> 9999
      \<and> local_time_exists ?tz (new_local_minutes ?tz 1709623800000 ?target)"
    by code_simp
  have b: "Date_parse ?tz ?old = Some 1709623800000
      \<and> local_time_exists ?tz (new_local_seconds ?tz 1709623800000 ?target)"
    by code_simp
  have c: "find (\<lambda>s. surgery_id s = 7) [surgery_at ?old] = Some (surgery_at ?old)
      \<and> Date_parse ?tz (date_time (surgery_at ?old)) = Some 1709623800000
      \<and> 1000 \<le> getFullYear ?tz ?target \<and> getFullYear ?tz ?target \<le> 9999
      \<and> local_time_exists ?tz (new_local_minutes ?tz 1709623800000 ?target)"
    using a by (simp add: surgery_at_def)
  have e: "Date_parse ?tz (Local_seconds 2024 3 15 2 30 0)
      = Date_parse ?tz (newDateTimeString ?tz (date_time (surgery_at ?old)) ?target)"
    by code_simp
  have d: "newDateTimeString ?tz ?old ?target = Local_minutes 2024 3 15 2 30"
    by code_simp
  from reschedule_idempotent [where tz = ?tz and old = ?old and t = 1709623800000
        and newDate = ?target and surgeryId = 7 and prev = "[surgery_at ?old]"
        and s_p = "surgery_at ?old" and t_p = 1709623800000
        and surgeries = "[surgery_at ?old]" and s = "surgery_at ?old" and t_s = 1709623800000
        and echoed = "Local_seconds 2024 3 15 2 30 0" and response = None]
    a b c d e
  show ?thesis by blast
qed

text \<open>
  C8, as stated, fails in \<^verbatim>\<open>src/unnamed/part_002\<close>: when no surgery has the id, the updater
  returns the collection it received, and the setter of \<^verbatim>\<open>useLocalStorage\<close> writes that
  collection to the storage of the browser again.
\<close>

theorem noop_drop_writes_storage:
  "find (\<lambda>s. surgery_id s = 8) [surgery_at (Local_minutes 2024 3 10 14 30)] = None
   \<and> handleSurgeryDrop_part002 (fixed_zone (-180)) 8 (new_Date (fixed_zone (-180)) 2024 2 15)
        [surgery_at (Local_minutes 2024 3 10 14 30)]
       = ([surgery_at (Local_minutes 2024 3 10 14 30)],
          [(''surgeries'', [surgery_at (Local_minutes 2024 3 10 14 30)])], [])"
  by (simp add: handleSurgeryDrop_part002_def setValue_def drop_updater_part002_def
      surgery_at_def)

text \<open>
  C8, amended: when no surgery of the collection has the id, and in
  \<^verbatim>\<open>src/unnamed/part_000\<close> also when the surgery with the id has no timestamp, the handler
  leaves the collection as it is and does not throw. In \<^verbatim>\<open>src/unnamed/part_000\<close> it returns
  at once: it asks the database for no update and shows no notification (the handler
  never writes to the collection). In \<^verbatim>\<open>src/unnamed/part_002\<close> the new collection is the
  collection it received, no notification is shown, and there is one write, that of the
  setter, which stores this unchanged collection under the key \<^verbatim>\<open>surgeries\<close> again.
\<close>

theorem reschedule_noop:
  "(surgeryId \<notin> surgery_id ` set surgeries_p
      \<longrightarrow> handleSurgeryDrop_part000 tz surgeries_p surgeryId newDate response = Inr no_effects)
   \<and> (find (\<lambda>s. surgery_id s = surgeryId) surgeries_p = Some s_p \<and> date_time s_p = None
        \<longrightarrow> handleSurgeryDrop_part000 tz surgeries_p surgeryId newDate response = Inr no_effects)
   \<and> (surgeryId \<notin> surgery_id ` set prev
        \<longrightarrow> handleSurgeryDrop_part002 tz surgeryId newDate prev
            = (prev, [(''surgeries'', prev)], []))
   \<and> updates (no_effects :: 'i drop_effects) = [] \<and> toasts (no_effects :: 'i drop_effects) = []"
  by (auto simp: handleSurgeryDrop_part000_def drop_part002_missing find_id_None no_effects_def)

theorem reschedule_noop_witness:
  "handleSurgeryDrop_part000 (fixed_zone (-180)) [surgery_at (Some (ISO_instant 1710081000000))] 8
      (new_Date (fixed_zone (-180)) 2024 2 15) None = Inr no_effects
   \<and> handleSurgeryDrop_part000 (fixed_zone (-180)) [surgery_at None] 7
        (new_Date (fixed_zone (-180)) 2024 2 15) None
       = Inr no_effects
   \<and> handleSurgeryDrop_part002 (fixed_zone (-180)) 8 (new_Date (fixed_zone (-180)) 2024 2 15)
        [surgery_at (Local_minutes 2024 3 10 14 30)]
       = ([surgery_at (Local_minutes 2024 3 10 14 30)],
          [(''surgeries'', [surgery_at (Local_minutes 2024 3 10 14 30)])], [])"
proof -
  have a: "(8::int) \<notin> surgery_id ` set [surgery_at (Some (ISO_instant 1710081000000))]"
    by (simp add: surgery_at_def)
  have b: "find (\<lambda>s. surgery_id s = 7) [surgery_at (None :: date_string option)]
             = Some (surgery_at None)
           \<and> date_time (surgery_at (None :: date_string option)) = None"
    by (simp add: surgery_at_def)
  have c: "(8::int) \<notin> surgery_id ` set [surgery_at (Local_minutes 2024 3 10 14 30)]"
    by (simp add: surgery_at_def)
  from
    reschedule_noop [where surgeryId = 8 and tz = "fixed_zone (- 180)"
      and surgeries_p = "[surgery_at (Some (ISO_instant 1710081000000))]"
      and newDate = "new_Date (fixed_zone (- 180)) 2024 2 15" and response = None
      and prev = "[surgery_at (Local_minutes 2024 3 10 14 30)]"]
    reschedule_noop [where surgeryId = 7 and tz = "fixed_zone (- 180)"
      and surgeries_p = "[surgery_at None]" and s_p = "surgery_at None"
      and newDate = "new_Date (fixed_zone (- 180)) 2024 2 15" and response = None
      and prev = "[surgery_at (Local_minutes 2024 3 10 14 30)]"]
    a b c
  show ?thesis by blast
qed

lemma echo_frame:
  assumes "find (\<lambda>s. surgery_id s = sid) surgeries = Some s"
    "distinct (map surgery_id surgeries)" "i < length surgeries"
  shows "postgres_changes (UPDATE (s\<lparr>date_time := w\<rparr>)) surgeries ! i
           = (if surgery_id (surgeries ! i) = sid then (surgeries ! i)\<lparr>date_time := w\<rparr>
              else surgeries ! i)"
proof -
  have sid: "surgery_id s = sid"
    using find_in_set [OF assms(1)] by simp
  show ?thesis
  proof (cases "surgery_id (surgeries ! i) = sid")
    case True
    have "surgeries ! i = s"
      using assms(2,1) _ True by (rule the_one_with_id) (use assms(3) in simp)
    then show ?thesis using assms(3) True by (simp add: sid)
  next
    case False
    then show ?thesis using assms(3) by (simp add: sid)
  qed
qed

text \<open>
  C10: when the surgery with the id is found, every surgery with another id is still in
  the collection that \<^verbatim>\<open>src/unnamed/part_002\<close> returns; and when the ids of the collection
  are distinct, as the ids of a data model are, that collection has the same surgeries
  in the same places, except that the surgery with the id has the new timestamp; its
  other fields, and every other surgery, are as before. In \<^verbatim>\<open>src/index.tsx\<close> the handler does not write
  to the collection: it asks the database once to set the column \<^verbatim>\<open>date_time\<close> of the rows
  with the id to the new timestamp, and shows one notification; when the change feed
  brings the row with that column changed, the collection changes in the same way.
\<close>

theorem reschedule_frame:
  "(find (\<lambda>s. surgery_id s = surgeryId) prev = Some s
      \<longrightarrow> (\<forall>x \<in> set prev. surgery_id x \<noteq> surgeryId
             \<longrightarrow> x \<in> set (fst (handleSurgeryDrop_part002 tz surgeryId newDate prev))))
   \<and> (find (\<lambda>s. surgery_id s = surgeryId) prev = Some s \<and> distinct (map surgery_id prev)
      \<longrightarrow> length (fst (handleSurgeryDrop_part002 tz surgeryId newDate prev)) = length prev
          \<and> (\<forall>i < length prev.
                fst (handleSurgeryDrop_part002 tz surgeryId newDate prev) ! i
                  = (if surgery_id (prev ! i) = surgeryId
                     then (prev ! i)\<lparr>date_time :=
                            newDateTimeString tz (date_time (prev ! i)) newDate\<rparr>
                     else prev ! i)))
   \<and> (find (\<lambda>s. surgery_id s = surgeryId) surgeries = Some s'
        \<longrightarrow> handleSurgeryDrop tz surgeries surgeryId newDate response
            = \<lparr>updates = [(surgeryId, newDateTimeString tz (date_time s') newDate)],
               toasts = [reschedule_toast response]\<rparr>)
   \<and> (find (\<lambda>s. surgery_id s = surgeryId) surgeries = Some s'
        \<and> distinct (map surgery_id surgeries)
        \<longrightarrow> (\<forall>i < length surgeries.
               postgres_changes (UPDATE (s'\<lparr>date_time := w\<rparr>)) surgeries ! i
                 = (if surgery_id (surgeries ! i) = surgeryId
                    then (surgeries ! i)\<lparr>date_time := w\<rparr> else surgeries ! i)))"
proof -
  have "fst (handleSurgeryDrop_part002 tz surgeryId newDate prev) ! i
          = (if surgery_id (prev ! i) = surgeryId
             then (prev ! i)\<lparr>date_time := newDateTimeString tz (date_time (prev ! i)) newDate\<rparr>
             else prev ! i)"
    if found: "find (\<lambda>s. surgery_id s = surgeryId) prev = Some s"
      and ids: "distinct (map surgery_id prev)" and i: "i < length prev" for i
  proof (cases "surgery_id (prev ! i) = surgeryId")
    case True
    have "prev ! i = s"
      using ids found _ True by (rule the_one_with_id) (use i in simp)
    then show ?thesis
      using i True by (simp add: drop_part002_found [OF found])
  next
    case False
    then show ?thesis
      using i by (simp add: drop_part002_found [OF found])
  qed
  moreover have "length (fst (handleSurgeryDrop_part002 tz surgeryId newDate prev)) = length prev"
    if "find (\<lambda>s. surgery_id s = surgeryId) prev = Some s"
    by (simp add: drop_part002_found [OF that])
  moreover have "x \<in> set (fst (handleSurgeryDrop_part002 tz surgeryId newDate prev))"
    if "find (\<lambda>s. surgery_id s = surgeryId) prev = Some s" "x \<in> set prev"
      "surgery_id x \<noteq> surgeryId" for x
    using that(2,3) by (force simp: drop_part002_found [OF that(1)])
  ultimately show ?thesis
    by (simp add: handleSurgeryDrop_def echo_frame del: postgres_changes.simps)
qed

theorem reschedule_frame_witness:
  "fst (handleSurgeryDrop_part002 (fixed_zone (-180)) 7 (new_Date (fixed_zone (-180)) 2024 2 15)
      [(surgery_at (Local_minutes 2024 3 10 9 0))\<lparr>surgery_id := 3\<rparr>,
       surgery_at (Local_minutes 2024 3 10 14 30)])
     = [(surgery_at (Local_minutes 2024 3 10 9 0))\<lparr>surgery_id := 3\<rparr>,
        surgery_at (Local_minutes 2024 3 15 14 30)]
   \<and> handleSurgeryDrop (fixed_zone (-180)) [surgery_at (Local_minutes 2024 3 10 14 30)] 7
        (new_Date (fixed_zone (-180)) 2024 2 15) None
       = \<lparr>updates = [(7, newDateTimeString (fixed_zone (-180))
                           (date_time (surgery_at (Local_minutes 2024 3 10 14 30)))
                           (new_Date (fixed_zone (-180)) 2024 2 15))],
          toasts = [reschedule_toast None]\<rparr>"
proof -
  let ?prev = "[(surgery_at (Local_minutes 2024 3 10 9 0))\<lparr>surgery_id := 3\<rparr>,
       surgery_at (Local_minutes 2024 3 10 14 30)]"
  let ?res = "fst (handleSurgeryDrop_part002 (fixed_zone (-180)) 7
       (new_Date (fixed_zone (-180)) 2024 2 15) ?prev)"
  have a: "find (\<lambda>s. surgery_id s = 7) ?prev = Some (surgery_at (Local_minutes 2024 3 10 14 30))
           \<and> distinct (map surgery_id ?prev)"
    by (simp add: surgery_at_def)
  have b: "find (\<lambda>s. surgery_id s = 7) [surgery_at (Local_minutes 2024 3 10 14 30)]
      = Some (surgery_at (Local_minutes 2024 3 10 14 30))"
    by (simp add: surgery_at_def)
  note frame = reschedule_frame [where surgeryId = 7 and tz = "fixed_zone (- 180)"
        and prev = ?prev
        and s = "surgery_at (Local_minutes 2024 3 10 14 30)"
        and newDate = "new_Date (fixed_zone (- 180)) 2024 2 15"
        and surgeries = "[surgery_at (Local_minutes 2024 3 10 14 30)]"
        and s' = "surgery_at (Local_minutes 2024 3 10 14 30)" and response = None]
  from frame a have len: "length ?res = length ?prev"
    and cells: "\<forall>i < length ?prev. ?res ! i
        = (if surgery_id (?prev ! i) = 7
           then (?prev ! i)\<lparr>date_time :=
                  newDateTimeString (fixed_zone (-180)) (date_time (?prev ! i))
                    (new_Date (fixed_zone (-180)) 2024 2 15)\<rparr>
           else ?prev ! i)"
    by blast+
  have new: "newDateTimeString (fixed_zone (-180)) (Local_minutes 2024 3 10 14 30)
        (new_Date (fixed_zone (-180)) 2024 2 15)
      = Local_minutes 2024 3 15 14 30"
    by code_simp
  have "?res ! 0 = (surgery_at (Local_minutes 2024 3 10 9 0))\<lparr>surgery_id := 3\<rparr>"
    using cells by (simp add: surgery_at_def)
  moreover have "?res ! 1 = surgery_at (Local_minutes 2024 3 15 14 30)"
    using cells by (simp add: surgery_at_def new)
  ultimately have "?res = [(surgery_at (Local_minutes 2024 3 10 9 0))\<lparr>surgery_id := 3\<rparr>,
        surgery_at (Local_minutes 2024 3 15 14 30)]"
    using len by (intro nth_equalityI) (auto simp: less_Suc_eq)
  with frame b show ?thesis by blast
qed

end
